theory Spec2Isabelle
  imports Complex_Main "HOL-Library.Char_ord" "HOL-Library.List_Lexorder"
begin

section \<open>Values, errors and the helpers of the formula evaluator\<close>

text \<open>
  The evaluator of \<^verbatim>\<open>compute/nodes.py\<close> works on Python scalars: integers, floats,
  strings, and labelled identifiers (a pair of an integer code and a text label).
  Python integers are unbounded. The decimal domain is idealised: a float is a real
  number or not-a-number; rounding, infinities and overflow are not modelled, and no
  statement below depends on them.
\<close>

datatype val =
    IntV int
  | DecV real
  | NaN
  | StrV string
  | TupV int string

datatype error =
    RuntimeError
  | TypeError
  | ValueError
  | ZeroDivisionError
  | NameError
  | IndexError
  | Unmodelled

text \<open>The target of a conversion: \<^verbatim>\<open>int\<close>, \<^verbatim>\<open>float\<close> or \<^verbatim>\<open>str\<close>.\<close>

datatype pytype = TInt | TFloat | TStr

datatype DataType = INTEGER | DECIMAL | TEXT

datatype MeasureType = NOMINAL | ORDINAL | CONTINUOUS | ID

text \<open>
  \<^verbatim>\<open>convert\<close>, \<^verbatim>\<open>is_missing\<close> and \<^verbatim>\<open>get_missing\<close> are imported from
  \<^verbatim>\<open>..utils\<close>, and \<^verbatim>\<open>float(v)\<close> on a string is Python's parser of decimal
  literals. The evaluator takes them as parameters. \<^verbatim>\<open>get_missing()\<close> without an
  argument is \<open>get_missing u None\<close>.
\<close>

record utils =
  convert :: "val \<Rightarrow> pytype option \<Rightarrow> val"
  is_missing :: "val \<Rightarrow> bool"
  get_missing :: "pytype option \<Rightarrow> val"
  py_float :: "string \<Rightarrow> error + val"

subsection \<open>A concrete set of helpers\<close>

text \<open>
  Modelled from the spec: \<^verbatim>\<open>jamovi/server/utils\<close> is not among the sources. The spec
  (sections 3 and 6) gives the missing sentinel of each domain (a reserved minimum integer,
  not-a-number, the empty text), says that \<^verbatim>\<open>convert\<close> carries the missing sentinel of
  one domain to that of the other, and that a value that cannot be converted becomes the
  missing sentinel of the target. The definitions below follow that. What the spec leaves
  open is fixed as follows, and no general theorem depends on it: a labelled identifier
  is missing when its code is; \<^verbatim>\<open>get_missing()\<close> without a domain gives the integer
  sentinel; \<^verbatim>\<open>convert\<close> reads and prints text as a decimal integer literal, the text
  of an integral decimal ends in \<^verbatim>\<open>.0\<close>, and other decimals have no text;
  \<^verbatim>\<open>float\<close> reads a decimal literal with an optional sign and an optional fraction
  (\<^verbatim>\<open>12\<close>, \<^verbatim>\<open>-1.5\<close>, \<^verbatim>\<open>.5\<close>) and raises on any other text, so exponents,
  surrounding blanks and the words for infinity and not-a-number are not read. The theorems of
  this theory hold for every \<open>utils\<close>; \<open>spec_utils\<close> is the instance the
  concrete evaluations use.
\<close>

definition INT_MISSING :: int where
  "INT_MISSING = - 2147483648"

fun spec_is_missing :: "val \<Rightarrow> bool" where
  "spec_is_missing (IntV i) = (i = INT_MISSING)"
| "spec_is_missing (DecV r) = False"
| "spec_is_missing NaN = True"
| "spec_is_missing (StrV s) = False"
| "spec_is_missing (TupV c l) = (c = INT_MISSING)"

fun spec_get_missing :: "pytype option \<Rightarrow> val" where
  "spec_get_missing None = IntV INT_MISSING"
| "spec_get_missing (Some TInt) = IntV INT_MISSING"
| "spec_get_missing (Some TFloat) = NaN"
| "spec_get_missing (Some TStr) = StrV []"

fun parse_digits :: "string \<Rightarrow> nat \<Rightarrow> nat option" where
  "parse_digits [] acc = Some acc"
| "parse_digits (c # cs) acc =
     (if CHR ''0'' \<le> c \<and> c \<le> CHR ''9''
      then parse_digits cs (10 * acc + (of_char c - 48))
      else None)"

fun parse_int :: "string \<Rightarrow> int option" where
  "parse_int [] = None"
| "parse_int (c # cs) =
     (if c = CHR ''-'' then
        (if cs = [] then None else map_option (\<lambda>n. - int n) (parse_digits cs 0))
      else map_option int (parse_digits (c # cs) 0))"

fun show_nat :: "nat \<Rightarrow> string" where
  "show_nat n =
     (if n < 10 then [char_of (48 + n)]
      else show_nat (n div 10) @ [char_of (48 + n mod 10)])"

definition show_int :: "int \<Rightarrow> string" where
  "show_int i = (if i < 0 then CHR ''-'' # show_nat (nat (- i)) else show_nat (nat i))"

definition trunc :: "real \<Rightarrow> int" where
  "trunc r = (if 0 \<le> r then \<lfloor>r\<rfloor> else \<lceil>r\<rceil>)"

fun spec_convert :: "val \<Rightarrow> pytype option \<Rightarrow> val" where
  "spec_convert v None = v"
| "spec_convert v (Some TInt) =
     (if spec_is_missing v then IntV INT_MISSING
      else case v of
        IntV i \<Rightarrow> IntV i
      | DecV r \<Rightarrow> IntV (trunc r)
      | NaN \<Rightarrow> IntV INT_MISSING
      | StrV s \<Rightarrow> (case parse_int s of Some i \<Rightarrow> IntV i | None \<Rightarrow> IntV INT_MISSING)
      | TupV c l \<Rightarrow> IntV c)"
| "spec_convert v (Some TFloat) =
     (if spec_is_missing v then NaN
      else case v of
        IntV i \<Rightarrow> DecV (of_int i)
      | DecV r \<Rightarrow> DecV r
      | NaN \<Rightarrow> NaN
      | StrV s \<Rightarrow> (case parse_int s of Some i \<Rightarrow> DecV (of_int i) | None \<Rightarrow> NaN)
      | TupV c l \<Rightarrow> DecV (of_int c))"
| "spec_convert v (Some TStr) =
     (if spec_is_missing v then StrV []
      else case v of
        IntV i \<Rightarrow> StrV (show_int i)
      | DecV r \<Rightarrow> (if of_int \<lfloor>r\<rfloor> = r then StrV (show_int \<lfloor>r\<rfloor> @ ''.0'') else StrV [])
      | NaN \<Rightarrow> StrV []
      | StrV s \<Rightarrow> StrV s
      | TupV c l \<Rightarrow> StrV l)"

fun split_at_dot :: "string \<Rightarrow> string \<times> string option" where
  "split_at_dot [] = ([], None)"
| "split_at_dot (c # cs) =
     (if c = CHR ''.'' then ([], Some cs)
      else case split_at_dot cs of (a, b) \<Rightarrow> (c # a, b))"

definition parse_unsigned :: "string \<Rightarrow> real option" where
  "parse_unsigned s =
     (case split_at_dot s of
        (a, None) \<Rightarrow> (if a = [] then None else map_option real (parse_digits a 0))
      | (a, Some b) \<Rightarrow>
          (if a = [] \<and> b = [] then None
           else case (parse_digits a 0, parse_digits b 0) of
             (Some x, Some y) \<Rightarrow> Some (real x + real y / 10 ^ length b)
           | _ \<Rightarrow> None))"

definition spec_py_float :: "string \<Rightarrow> error + val" where
  "spec_py_float s =
     (case (case s of
              [] \<Rightarrow> None
            | c # cs \<Rightarrow>
                if c = CHR ''-'' then map_option uminus (parse_unsigned cs)
                else if c = CHR ''+'' then parse_unsigned cs
                else parse_unsigned s) of
        Some r \<Rightarrow> Inr (DecV r)
      | None \<Rightarrow> Inl ValueError)"

definition spec_utils :: utils where
  "spec_utils =
     \<lparr>convert = spec_convert, is_missing = spec_is_missing,
      get_missing = spec_get_missing, py_float = spec_py_float\<rparr>"

subsection \<open>Python's operators on scalars\<close>

text \<open>Truth value of a scalar: \<^verbatim>\<open>not v\<close> is its negation.\<close>

fun py_truthy :: "val \<Rightarrow> bool" where
  "py_truthy (IntV i) = (i \<noteq> 0)"
| "py_truthy (DecV r) = (r \<noteq> 0)"
| "py_truthy NaN = True"
| "py_truthy (StrV s) = (s \<noteq> [])"
| "py_truthy (TupV c l) = True"

text \<open>\<^verbatim>\<open>v[0]\<close> when \<^verbatim>\<open>v\<close> is a tuple, \<^verbatim>\<open>v\<close> otherwise.\<close>

fun untuple :: "val \<Rightarrow> val" where
  "untuple (TupV c l) = IntV c"
| "untuple v = v"

fun is_tuple :: "val \<Rightarrow> bool" where
  "is_tuple (TupV c l) = True"
| "is_tuple v = False"

fun is_str :: "val \<Rightarrow> bool" where
  "is_str (StrV s) = True"
| "is_str v = False"

fun is_float :: "val \<Rightarrow> bool" where
  "is_float (DecV r) = True"
| "is_float NaN = True"
| "is_float v = False"

text \<open>
  Arithmetic. Integers stay integers under \<^verbatim>\<open>+ - * % **\<close> (a negative exponent
  gives a float), \<^verbatim>\<open>/\<close> is true division, a float operand makes the result a
  float, and not-a-number is contagious. Results that are not scalars of the evaluator
  (a complex power, a longer tuple, \<^verbatim>\<open>%\<close>-formatting of a string) are reported as
  \<open>Unmodelled\<close>.
\<close>

fun is_num :: "val \<Rightarrow> bool" where
  "is_num (IntV i) = True"
| "is_num (DecV r) = True"
| "is_num NaN = True"
| "is_num v = False"

fun to_real :: "val \<Rightarrow> real option" where
  "to_real (IntV i) = Some (of_int i)"
| "to_real (DecV r) = Some r"
| "to_real v = None"

fun is_zero :: "val \<Rightarrow> bool" where
  "is_zero (IntV i) = (i = 0)"
| "is_zero (DecV r) = (r = 0)"
| "is_zero v = False"

fun num_binop ::
  "(int \<Rightarrow> int \<Rightarrow> error + val) \<Rightarrow> (real \<Rightarrow> real \<Rightarrow> error + val) \<Rightarrow> val \<Rightarrow> val \<Rightarrow> error + val" where
  "num_binop fi fr (IntV a) (IntV b) = fi a b"
| "num_binop fi fr a b =
     (if is_num a \<and> is_num b then
        (case (to_real a, to_real b) of
           (Some x, Some y) \<Rightarrow> fr x y
         | _ \<Rightarrow> Inr NaN)
      else Inl TypeError)"

fun py_neg :: "val \<Rightarrow> error + val" where
  "py_neg (IntV i) = Inr (IntV (- i))"
| "py_neg (DecV r) = Inr (DecV (- r))"
| "py_neg NaN = Inr NaN"
| "py_neg v = Inl TypeError"

fun py_add :: "val \<Rightarrow> val \<Rightarrow> error + val" where
  "py_add (StrV s) (StrV t) = Inr (StrV (s @ t))"
| "py_add (TupV c l) (TupV d m) = Inl Unmodelled"
| "py_add a b = num_binop (\<lambda>x y. Inr (IntV (x + y))) (\<lambda>x y. Inr (DecV (x + y))) a b"

fun py_sub :: "val \<Rightarrow> val \<Rightarrow> error + val" where
  "py_sub a b = num_binop (\<lambda>x y. Inr (IntV (x - y))) (\<lambda>x y. Inr (DecV (x - y))) a b"

fun py_mult :: "val \<Rightarrow> val \<Rightarrow> error + val" where
  "py_mult (StrV s) (IntV n) = Inr (StrV (concat (replicate (nat n) s)))"
| "py_mult (IntV n) (StrV s) = Inr (StrV (concat (replicate (nat n) s)))"
| "py_mult (TupV c l) (IntV n) = Inl Unmodelled"
| "py_mult (IntV n) (TupV c l) = Inl Unmodelled"
| "py_mult a b = num_binop (\<lambda>x y. Inr (IntV (x * y))) (\<lambda>x y. Inr (DecV (x * y))) a b"

fun py_div :: "val \<Rightarrow> val \<Rightarrow> error + val" where
  "py_div a b =
     (if is_num a \<and> is_zero b then Inl ZeroDivisionError
      else num_binop (\<lambda>x y. Inr (DecV (of_int x / of_int y))) (\<lambda>x y. Inr (DecV (x / y))) a b)"

fun py_mod :: "val \<Rightarrow> val \<Rightarrow> error + val" where
  "py_mod (StrV s) b = Inl Unmodelled"
| "py_mod a b =
     (if is_num a \<and> is_zero b then Inl ZeroDivisionError
      else num_binop (\<lambda>x y. Inr (IntV (x mod y)))
             (\<lambda>x y. Inr (DecV (x - y * of_int \<lfloor>x / y\<rfloor>))) a b)"

definition float_pow :: "real \<Rightarrow> real \<Rightarrow> error + val" where
  "float_pow x y =
     (if x = 0 \<and> y < 0 then Inl ZeroDivisionError
      else if x < 0 \<and> of_int \<lfloor>y\<rfloor> \<noteq> y then Inl Unmodelled
      else if x < 0 then Inr (DecV (x powi \<lfloor>y\<rfloor>))
      else Inr (DecV (x powr y)))"

fun py_pow :: "val \<Rightarrow> val \<Rightarrow> error + val" where
  "py_pow (IntV a) (IntV b) =
     (if 0 \<le> b then Inr (IntV (a ^ nat b))
      else if a = 0 then Inl ZeroDivisionError
      else Inr (DecV (of_int a powi b)))"
| "py_pow a b =
     (if is_num a \<and> is_num b then
        (if is_zero b \<or> a = DecV 1 \<or> a = IntV 1 then Inr (DecV 1)
         else case (to_real a, to_real b) of
           (Some x, Some y) \<Rightarrow> float_pow x y
         | _ \<Rightarrow> Inr NaN)
      else Inl TypeError)"

text \<open>
  Comparison. \<^verbatim>\<open>< > <= >=\<close> are defined between two numbers (false when one is
  not-a-number), two strings and two tuples, and raise \<^verbatim>\<open>TypeError\<close> otherwise;
  \<^verbatim>\<open>==\<close> never raises.
\<close>

fun py_cmp :: "(real \<Rightarrow> real \<Rightarrow> bool) \<Rightarrow> (string \<Rightarrow> string \<Rightarrow> bool) \<Rightarrow>
    (int \<times> string \<Rightarrow> int \<times> string \<Rightarrow> bool) \<Rightarrow> val \<Rightarrow> val \<Rightarrow> error + bool" where
  "py_cmp fr fs ft (StrV s) (StrV t) = Inr (fs s t)"
| "py_cmp fr fs ft (TupV c l) (TupV d m) = Inr (ft (c, l) (d, m))"
| "py_cmp fr fs ft a b =
     (if is_num a \<and> is_num b then
        (case (to_real a, to_real b) of
           (Some x, Some y) \<Rightarrow> Inr (fr x y)
         | _ \<Rightarrow> Inr False)
      else Inl TypeError)"

definition tup_less :: "int \<times> string \<Rightarrow> int \<times> string \<Rightarrow> bool" where
  "tup_less p q = (fst p < fst q \<or> (fst p = fst q \<and> snd p < snd q))"

definition py_lt :: "val \<Rightarrow> val \<Rightarrow> error + bool" where
  "py_lt = py_cmp (\<lambda>x y. x < y) (\<lambda>s t. s < t) tup_less"

definition py_gt :: "val \<Rightarrow> val \<Rightarrow> error + bool" where
  "py_gt = py_cmp (\<lambda>x y. y < x) (\<lambda>s t. t < s) (\<lambda>p q. tup_less q p)"

definition py_le :: "val \<Rightarrow> val \<Rightarrow> error + bool" where
  "py_le = py_cmp (\<lambda>x y. x \<le> y) (\<lambda>s t. s \<le> t) (\<lambda>p q. \<not> tup_less q p)"

definition py_ge :: "val \<Rightarrow> val \<Rightarrow> error + bool" where
  "py_ge = py_cmp (\<lambda>x y. y \<le> x) (\<lambda>s t. t \<le> s) (\<lambda>p q. \<not> tup_less p q)"

fun py_eq :: "val \<Rightarrow> val \<Rightarrow> bool" where
  "py_eq (StrV s) (StrV t) = (s = t)"
| "py_eq (TupV c l) (TupV d m) = (c = d \<and> l = m)"
| "py_eq a b =
     (case (to_real a, to_real b) of (Some x, Some y) \<Rightarrow> x = y | _ \<Rightarrow> False)"

text \<open>\<^verbatim>\<open>float(v)\<close> and \<^verbatim>\<open>math.isclose\<close> with its default tolerances.\<close>

fun to_float :: "utils \<Rightarrow> val \<Rightarrow> error + val" where
  "to_float u (IntV i) = Inr (DecV (of_int i))"
| "to_float u (DecV r) = Inr (DecV r)"
| "to_float u NaN = Inr NaN"
| "to_float u (StrV s) = py_float u s"
| "to_float u (TupV c l) = Inl TypeError"

fun isclose :: "val \<Rightarrow> val \<Rightarrow> bool" where
  "isclose (DecV a) (DecV b) = (a = b \<or> \<bar>a - b\<bar> \<le> max \<bar>a\<bar> \<bar>b\<bar> / 1000000000)"
| "isclose a b = False"

definition py_isclose :: "utils \<Rightarrow> val \<Rightarrow> val \<Rightarrow> error + bool" where
  "py_isclose u v1 v2 =
     (case to_float u v1 of
        Inl e \<Rightarrow> Inl e
      | Inr a \<Rightarrow> (case to_float u v2 of Inl e \<Rightarrow> Inl e | Inr b \<Rightarrow> Inr (isclose a b)))"

section \<open>The boolean operator node\<close>

datatype boolop = And | Or | BoolOther

text \<open>
  The two loops of \<^verbatim>\<open>BoolOp.fvalue\<close>. The list holds what each operand's
  \<^verbatim>\<open>fvalue\<close> gives, in order; an operand is evaluated when the loop reaches it, so
  the loop also counts the operands it has evaluated. An operand that raises ends the
  evaluation with its error.
\<close>

fun and_loop :: "utils \<Rightarrow> (error + val) list \<Rightarrow> val \<Rightarrow> nat \<Rightarrow> nat \<times> (error + val)" where
  "and_loop u [] to_return k = (k, Inr to_return)"
| "and_loop u (Inl e # vs) to_return k = (Suc k, Inl e)"
| "and_loop u (Inr v # vs) to_return k =
     (if is_missing u v then and_loop u vs v (Suc k)
      else if \<not> py_truthy (untuple v) then (Suc k, Inr (IntV 0))
      else and_loop u vs to_return (Suc k))"

fun or_loop :: "utils \<Rightarrow> (error + val) list \<Rightarrow> val \<Rightarrow> nat \<Rightarrow> nat \<times> (error + val)" where
  "or_loop u [] to_return k = (k, Inr to_return)"
| "or_loop u (Inl e # vs) to_return k = (Suc k, Inl e)"
| "or_loop u (Inr v # vs) to_return k =
     (if is_missing u v then or_loop u vs v (Suc k)
      else if py_truthy (untuple v) then (Suc k, Inr (IntV 1))
      else or_loop u vs to_return (Suc k))"

fun BoolOp_run :: "utils \<Rightarrow> boolop \<Rightarrow> (error + val) list \<Rightarrow> nat \<times> (error + val)" where
  "BoolOp_run u And vs = and_loop u vs (IntV 1) 0"
| "BoolOp_run u Or vs = or_loop u vs (IntV 0) 0"
| "BoolOp_run u BoolOther vs = (0, Inl RuntimeError)"

section \<open>Unary, binary and comparison operators\<close>

text \<open>
  The operator kinds are those of Python's \<^verbatim>\<open>ast\<close> module. \<open>UnaryOther\<close> and
  \<open>BoolOther\<close> stand for any object that is none of the kinds the grammar has.
\<close>

datatype unaryop = USub | UAdd | NotOp | Invert | UnaryOther

datatype operator =
  Add | Sub | Mult | MatMult | Div | Mod | Pow | LShift | RShift | BitOr | BitXor | BitAnd | FloorDiv

datatype cmpop = Eq | NotEq | Lt | LtE | Gt | GtE | Is | IsNot | In | NotIn

text \<open>The body of \<^verbatim>\<open>UnaryOp.fvalue\<close> once the operand has given \<open>v\<close>.\<close>

fun UnaryOp_apply :: "utils \<Rightarrow> unaryop \<Rightarrow> val \<Rightarrow> error + val" where
  "UnaryOp_apply u USub v =
     (if is_missing u v then Inr v else py_neg (untuple v))"
| "UnaryOp_apply u UAdd v =
     (if is_missing u v then Inr v
      else if is_tuple v then Inr (untuple v)
      else if is_str v then to_float u v
      else Inr v)"
| "UnaryOp_apply u NotOp v =
     (if is_missing u v then Inr v
      else Inr (if \<not> py_truthy (untuple v) then IntV 1 else IntV 0))"
| "UnaryOp_apply u Invert v =
     (if is_missing u v then Inr (IntV 0) else Inr v)"
| "UnaryOp_apply u UnaryOther v = Inl RuntimeError"

text \<open>\<^verbatim>\<open>Compare._test\<close>.\<close>

fun tuple_item :: "val \<Rightarrow> bool \<Rightarrow> val" where
  "tuple_item (TupV c l) other_is_str = (if other_is_str then StrV l else IntV c)"
| "tuple_item v other_is_str = v"

definition test_unpack :: "utils \<Rightarrow> val \<Rightarrow> val \<Rightarrow> val \<times> val" where
  "test_unpack u v1 v2 =
     (if is_tuple v1 \<and> is_tuple v2 then (convert u v1 (Some TInt), convert u v2 (Some TInt))
      else if is_tuple v1 then (tuple_item v1 (is_str v2), v2)
      else if is_tuple v2 then (v1, tuple_item v2 (is_str v1))
      else (v1, v2))"

fun test_op :: "utils \<Rightarrow> cmpop \<Rightarrow> val \<Rightarrow> val \<Rightarrow> error + bool" where
  "test_op u Lt v1 v2 = py_lt v1 v2"
| "test_op u Gt v1 v2 = py_gt v1 v2"
| "test_op u GtE v1 v2 = py_ge v1 v2"
| "test_op u LtE v1 v2 = py_le v1 v2"
| "test_op u Eq v1 v2 =
     (if is_float v1 \<or> is_float v2 then py_isclose u v1 v2 else Inr (py_eq v1 v2))"
| "test_op u NotEq v1 v2 =
     (if is_float v1 \<or> is_float v2 then
        (case py_isclose u v1 v2 of Inl e \<Rightarrow> Inl e | Inr b \<Rightarrow> Inr (\<not> b))
      else Inr (\<not> py_eq v1 v2))"
| "test_op u op v1 v2 = Inl RuntimeError"

definition Compare_test :: "utils \<Rightarrow> val \<Rightarrow> cmpop \<Rightarrow> val \<Rightarrow> error + bool" where
  "Compare_test u v1 op v2 = (case test_unpack u v1 v2 of (a, b) \<Rightarrow> test_op u op a b)"

text \<open>
  The loop of \<^verbatim>\<open>Compare.fvalue\<close> over \<^verbatim>\<open>range(len(self.ops))\<close>, with \<open>v1\<close>
  the value carried from the previous pair. The second list holds what each
  comparator's \<^verbatim>\<open>fvalue\<close> gives, read when the loop reaches it; reading
  \<^verbatim>\<open>self.comparators[i]\<close> past the end raises.
\<close>

fun compare_loop :: "utils \<Rightarrow> val \<Rightarrow> cmpop list \<Rightarrow> (error + val) list \<Rightarrow> error + val" where
  "compare_loop u v1 [] cs = Inr (IntV 1)"
| "compare_loop u v1 (op # ops) [] = Inl IndexError"
| "compare_loop u v1 (op # ops) (Inl e # cs) = Inl e"
| "compare_loop u v1 (op # ops) (Inr v2 # cs) =
     (if is_missing u v2 then Inr (get_missing u (Some TInt))
      else case Compare_test u v1 op v2 of
        Inl e \<Rightarrow> Inl e
      | Inr ok \<Rightarrow> if \<not> ok then Inr (IntV 0) else compare_loop u v2 ops cs)"

definition Compare_run ::
  "utils \<Rightarrow> error + val \<Rightarrow> cmpop list \<Rightarrow> (error + val) list \<Rightarrow> error + val" where
  "Compare_run u left ops cs =
     (case left of
        Inl e \<Rightarrow> Inl e
      | Inr v1 \<Rightarrow>
          if is_missing u v1 then Inr (get_missing u (Some TInt))
          else compare_loop u v1 ops cs)"

text \<open>
  \<^verbatim>\<open>BinOp.fvalue\<close> from the point where both operands have been evaluated:
  \<open>dt\<close> is the node's own data type, \<open>lv\<close> and \<open>rv\<close> the operand values.
\<close>

fun ul_type :: "DataType \<Rightarrow> pytype" where
  "ul_type DECIMAL = TFloat"
| "ul_type TEXT = TStr"
| "ul_type INTEGER = TInt"

fun BinOp_arith :: "utils \<Rightarrow> operator \<Rightarrow> val \<Rightarrow> val \<Rightarrow> error + val" where
  "BinOp_arith u Add lv rv = py_add lv rv"
| "BinOp_arith u Sub lv rv = py_sub lv rv"
| "BinOp_arith u Mult lv rv = py_mult lv rv"
| "BinOp_arith u Div lv rv =
     (case py_div lv rv of
        Inl e \<Rightarrow> if e = ZeroDivisionError then Inr (get_missing u None) else Inl e
      | Inr v \<Rightarrow> Inr v)"
| "BinOp_arith u Mod lv rv = py_mod lv rv"
| "BinOp_arith u Pow lv rv = py_pow lv rv"
| "BinOp_arith u BitXor lv rv = py_pow lv rv"
| "BinOp_arith u op lv rv = Inr (get_missing u None)"

definition BinOp_apply :: "utils \<Rightarrow> DataType \<Rightarrow> operator \<Rightarrow> val \<Rightarrow> val \<Rightarrow> error + val" where
  "BinOp_apply u dt op lv0 rv0 =
     (let lv = convert u lv0 (Some (ul_type dt));
          rv = convert u rv0 (Some (ul_type dt))
      in if ul_type dt = TStr \<and> op = Add then BinOp_arith u op lv rv
         else if is_missing u lv \<or> is_missing u rv then Inr (get_missing u (Some TInt))
         else BinOp_arith u op lv rv)"

section \<open>The expression tree\<close>

text \<open>
  \<open>Src\<close> is a node of a class that is not in \<^verbatim>\<open>nodes.py\<close> (a column reference):
  the tree sees its \<^verbatim>\<open>fvalue(index, row_count, filt)\<close>, its data type and its
  measure type.
\<close>

record source =
  src_fvalue :: "nat \<Rightarrow> nat \<Rightarrow> bool \<Rightarrow> error + val"
  src_data_type :: DataType
  src_measure_type :: MeasureType

text \<open>
  Modelled from the spec: the column leaf is supplied by the parser layer, which is not
  among the sources. Section 6 gives its interface: the value at a row index, a declared
  data type and a measure type. \<open>column\<close> is a leaf over a finite list of row values;
  reading past the last row raises.
\<close>

definition column :: "val list \<Rightarrow> DataType \<Rightarrow> MeasureType \<Rightarrow> source" where
  "column vals dt mt =
     \<lparr>src_fvalue = (\<lambda>index row_count filt.
        if index < length vals then Inr (vals ! index) else Inl IndexError),
      src_data_type = dt, src_measure_type = mt\<rparr>"

datatype node =
    Num val
  | Str string
  | UnaryOp unaryop node
  | BoolOp boolop "node list"
  | BinOp node operator node
  | Compare node "cmpop list" "node list"
  | Src source

fun is_int :: "val \<Rightarrow> bool" where
  "is_int (IntV i) = True"
| "is_int v = False"

fun data_type :: "node \<Rightarrow> DataType" where
  "data_type (Num n) = (if is_int n then INTEGER else DECIMAL)"
| "data_type (Str s) = TEXT"
| "data_type (UnaryOp op operand) =
     (if op = UAdd then (if data_type operand = TEXT then DECIMAL else data_type operand)
      else if op = NotOp then INTEGER
      else data_type operand)"
| "data_type (BoolOp op vs) = INTEGER"
| "data_type (BinOp l op r) =
     (if op = Pow then DECIMAL
      else if data_type l = TEXT \<or> data_type r = TEXT then TEXT
      else if data_type l = DECIMAL \<or> data_type r = DECIMAL then DECIMAL
      else INTEGER)"
| "data_type (Compare l ops cs) = INTEGER"
| "data_type (Src s) = src_data_type s"

fun measure_type :: "node \<Rightarrow> MeasureType" where
  "measure_type (Num n) = (if is_int n then ORDINAL else CONTINUOUS)"
| "measure_type (Str s) = NOMINAL"
| "measure_type (UnaryOp op operand) =
     (if op = UAdd then (if data_type operand = TEXT then CONTINUOUS else measure_type operand)
      else if op = NotOp then NOMINAL
      else measure_type operand)"
| "measure_type (BoolOp op vs) = NOMINAL"
| "measure_type (BinOp l op r) =
     (if op = Pow then CONTINUOUS
      else if (measure_type l = ID \<or> measure_type r = ID) \<and> data_type (BinOp l op r) = TEXT then ID
      else if (measure_type l = CONTINUOUS \<or> measure_type r = CONTINUOUS)
              \<and> data_type (BinOp l op r) \<noteq> TEXT then CONTINUOUS
      else if measure_type l = NOMINAL \<or> measure_type r = NOMINAL then NOMINAL
      else ORDINAL)"
| "measure_type (Compare l ops cs) = NOMINAL"
| "measure_type (Src s) = src_measure_type s"

text \<open>
  \<^verbatim>\<open>fvalue(index, row_count, filt)\<close> of every node class. A unary or binary node
  evaluates its operands first, left before right, and an operand that raises ends the
  evaluation with its error.
\<close>

fun fvalue :: "utils \<Rightarrow> node \<Rightarrow> nat \<Rightarrow> nat \<Rightarrow> bool \<Rightarrow> error + val" where
  "fvalue u (Num n) index row_count filt = Inr n"
| "fvalue u (Str s) index row_count filt = Inr (StrV s)"
| "fvalue u (Src s) index row_count filt = src_fvalue s index row_count filt"
| "fvalue u (UnaryOp op operand) index row_count filt =
     (case fvalue u operand index row_count filt of
        Inl e \<Rightarrow> Inl e
      | Inr v \<Rightarrow> UnaryOp_apply u op v)"
| "fvalue u (BoolOp op vs) index row_count filt =
     snd (BoolOp_run u op (map (\<lambda>v. fvalue u v index row_count filt) vs))"
| "fvalue u (BinOp l op r) index row_count filt =
     (case fvalue u l index row_count filt of
        Inl e \<Rightarrow> Inl e
      | Inr lv \<Rightarrow>
          (case fvalue u r index row_count filt of
             Inl e \<Rightarrow> Inl e
           | Inr rv \<Rightarrow> BinOp_apply u (data_type (BinOp l op r)) op lv rv))"
| "fvalue u (Compare l ops cs) index row_count filt =
     Compare_run u (fvalue u l index row_count filt) ops
       (map (\<lambda>c. fvalue u c index row_count filt) cs)"

section \<open>The function call node\<close>

subsection \<open>The function registry and the arguments\<close>

text \<open>
  Modelled from the spec: the module \<^verbatim>\<open>compute/functions\<close> is not among the sources.
  Section 6 describes an entry of the registry: the parameter list (declared domain and
  default of each parameter, the default being possibly another function), whether the
  function is row-wise or whole-column, its static result types, the argument positions
  that drive the result type (\<^verbatim>\<open>meta.returns\<close>) and those that seed the levels
  (\<^verbatim>\<open>meta.arg_level_indices\<close>). The Python function itself is called with scalars
  (row-wise, the row index first) or with one lazy sequence per argument (whole-column),
  and returns a scalar or raises. \<^verbatim>\<open>f_params\<close> is the whole signature, the row-index
  parameter of a row-wise function included.
\<close>

datatype pyarg = Scalar val | Seq "(error + val) list"

datatype default_val = NoDefault | FnDefault string | OtherDefault

record param =
  p_annotation :: "pytype option"
  p_default :: default_val

record func_meta =
  is_row_wise :: bool
  is_column_wise :: bool
  d_type :: DataType
  m_type :: MeasureType
  returns :: "nat list"
  arg_level_indices :: "nat list"

record func =
  f_name :: string
  f_params :: "param list"
  f_meta :: func_meta
  f_call :: "pyarg list \<Rightarrow> error + val"

text \<open>
  An argument of a call is a node of any class. The call reads its data type, measure
  type and levels, evaluates it at a row, and asks for its column
  (\<^verbatim>\<open>fvalues(row_count, filt)\<close>, the lazy sequence of the excluded \<^verbatim>\<open>FValues\<close>
  class, whose elements may raise when they are read). An argument is represented by
  these methods.
\<close>

record arg =
  arg_data_type :: DataType
  arg_measure_type :: MeasureType
  arg_has_levels :: bool
  arg_get_levels :: "nat \<Rightarrow> (int \<times> string) list"
  arg_fvalue :: "nat \<Rightarrow> nat \<Rightarrow> bool \<Rightarrow> error + val"
  arg_fvalues :: "nat \<Rightarrow> bool \<Rightarrow> (error + val) list"

text \<open>
  The attributes of a \<^verbatim>\<open>Call\<close> object. The memo \<^verbatim>\<open>_cached_value\<close> is empty when it
  is Python's \<^verbatim>\<open>None\<close>; a registry function returns a scalar, which \<^verbatim>\<open>None\<close> is not.
\<close>

record call =
  c_function :: func
  c_arg_types :: "pytype option list"
  c_cached_value :: "val option"
  c_d_type :: "DataType option"
  c_m_type :: "MeasureType option"

text \<open>
  The attributes as \<^verbatim>\<open>Call.__init__\<close> sets them: empty memos, and the declared domain
  of every parameter but the row index of a row-wise function.
\<close>

definition fresh_call :: "func \<Rightarrow> call" where
  "fresh_call f =
     \<lparr>c_function = f,
      c_arg_types = map p_annotation (if is_row_wise (f_meta f) then tl (f_params f) else f_params f),
      c_cached_value = None, c_d_type = None, c_m_type = None\<rparr>"

subsection \<open>Type inference\<close>

text \<open>The loop over \<^verbatim>\<open>d_types\<close> in \<^verbatim>\<open>_determine_d_m_types\<close>.\<close>

fun dt_loop :: "DataType option list \<Rightarrow> DataType \<Rightarrow> DataType" where
  "dt_loop [] dt = dt"
| "dt_loop (t # ts) dt =
     (if t = Some DECIMAL then dt_loop ts DECIMAL
      else if t = Some TEXT then TEXT
      else dt_loop ts dt)"

definition determine_d_m_types :: "func_meta \<Rightarrow> arg list \<Rightarrow> DataType \<times> MeasureType" where
  "determine_d_m_types func_meta args =
     (if length args = 0 then (d_type func_meta, m_type func_meta)
      else if length (returns func_meta) = 0 then (d_type func_meta, m_type func_meta)
      else
        let d_types = map (\<lambda>arg_i. if arg_i < length args
                                    then Some (arg_data_type (args ! arg_i)) else None)
                          (returns func_meta);
            m_types = map (\<lambda>arg_i. if arg_i < length args
                                    then Some (arg_measure_type (args ! arg_i)) else None)
                          (returns func_meta);
            dt = dt_loop d_types INTEGER;
            mt = (if dt = DECIMAL then CONTINUOUS
                  else if Some ID \<in> set m_types then ID
                  else if Some ORDINAL \<in> set m_types then ORDINAL
                  else NOMINAL)
        in (dt, mt))"

definition Call_determine_d_m_types :: "arg list \<Rightarrow> call \<Rightarrow> call" where
  "Call_determine_d_m_types args c =
     (case determine_d_m_types (f_meta (c_function c)) args of
        (dt, mt) \<Rightarrow> c\<lparr>c_d_type := Some dt, c_m_type := Some mt\<rparr>)"

text \<open>
  The properties \<^verbatim>\<open>data_type\<close> and \<^verbatim>\<open>measure_type\<close>: the value read, and the object
  after the read.
\<close>

definition Call_data_type :: "arg list \<Rightarrow> call \<Rightarrow> DataType option \<times> call" where
  "Call_data_type args c =
     (let c' = (if c_d_type c = None then Call_determine_d_m_types args c else c)
      in (c_d_type c', c'))"

definition Call_measure_type :: "arg list \<Rightarrow> call \<Rightarrow> MeasureType option \<times> call" where
  "Call_measure_type args c =
     (let c' = (if c_m_type c = None then Call_determine_d_m_types args c else c)
      in (c_m_type c', c'))"

text \<open>
  What the spec says the inferred types are, to compare \<open>determine_d_m_types\<close> with:
  the data type is text if a type-deriving argument is text, else decimal if one is
  decimal, else integer; the measure type is continuous for a decimal result, else
  identifier, ordinal or nominal. A type-deriving
  argument is an argument at a position of \<^verbatim>\<open>meta.returns\<close>.
\<close>

definition deriving_args :: "nat list \<Rightarrow> arg list \<Rightarrow> arg list" where
  "deriving_args rs args = map (\<lambda>i. args ! i) (filter (\<lambda>i. i < length args) rs)"

definition spec_d_type :: "arg list \<Rightarrow> DataType" where
  "spec_d_type ds =
     (if \<exists>a\<in>set ds. arg_data_type a = TEXT then TEXT
      else if \<exists>a\<in>set ds. arg_data_type a = DECIMAL then DECIMAL
      else INTEGER)"

definition spec_m_type :: "arg list \<Rightarrow> MeasureType" where
  "spec_m_type ds =
     (if spec_d_type ds = DECIMAL then CONTINUOUS
      else if \<exists>a\<in>set ds. arg_measure_type a = ID then ID
      else if \<exists>a\<in>set ds. arg_measure_type a = ORDINAL then ORDINAL
      else NOMINAL)"

subsection \<open>Evaluation and the memo of a whole-column function\<close>

text \<open>
  \<^verbatim>\<open>Call.fvalue\<close>, with the arguments of the node given.

  In the whole-column branch each argument's column is wrapped in a generator
  \<^verbatim>\<open>(convert(v, arg_type) for v in args[i])\<close>. The generators run inside the registry
  function, after the loop that creates them has ended, and \<^verbatim>\<open>arg_type\<close> is a variable
  of the enclosing method: every column is converted with the type the last round of the
  loop has left in it. In the row-wise branch the conversion happens inside the loop, with
  the type of each position.
\<close>

definition arg_type_at :: "pytype option list \<Rightarrow> nat \<Rightarrow> error + pytype option" where
  "arg_type_at arg_types i =
     (if arg_types = [] then Inl IndexError
      else Inr (arg_types ! min i (length arg_types - 1)))"

fun sequence :: "(error + 'a) list \<Rightarrow> error + 'a list" where
  "sequence [] = Inr []"
| "sequence (Inl e # xs) = Inl e"
| "sequence (Inr x # xs) = (case sequence xs of Inl e \<Rightarrow> Inl e | Inr ys \<Rightarrow> Inr (x # ys))"

definition convert_elem :: "utils \<Rightarrow> pytype option \<Rightarrow> error + val \<Rightarrow> error + val" where
  "convert_elem u t x = (case x of Inl e \<Rightarrow> Inl e | Inr v \<Rightarrow> Inr (convert u v t))"

text \<open>
  The branch of \<^verbatim>\<open>OFFSET\<close>: the second argument, converted to \<^verbatim>\<open>int\<close>, is the
  offset, and reading \<^verbatim>\<open>self.args[1]\<close> raises when there are fewer than two arguments.
  An offset that is not an integer after the conversion is outside the model.
\<close>

definition Call_offset :: "utils \<Rightarrow> arg list \<Rightarrow> nat \<Rightarrow> nat \<Rightarrow> error + val" where
  "Call_offset u args index row_count =
     (case args of
        a0 # a1 # rest \<Rightarrow>
          (case arg_fvalue a1 index row_count False of
             Inl e \<Rightarrow> Inl e
           | Inr ov \<Rightarrow>
               (case convert u ov (Some TInt) of
                  IntV offset \<Rightarrow>
                    if int index < offset then Inr NaN
                    else arg_fvalue a0 (nat (int index - offset)) row_count False
                | _ \<Rightarrow> Inl Unmodelled))
      | _ \<Rightarrow> Inl IndexError)"

text \<open>
  A call of the registry function is the one effect of an evaluation, so evaluation is
  written as a program: it returns, or it asks for the registry function to be applied to
  an argument list and goes on with what the function gives (a value or an error).
  \<open>exec\<close> runs a program against a function: it applies the function at every request
  and records the argument list of every application, in order. The program never
  applies the function itself.
\<close>

datatype 'a prog = Return 'a | Invoke "pyarg list" "error + val \<Rightarrow> 'a prog"

primrec exec :: "(pyarg list \<Rightarrow> error + val) \<Rightarrow> 'a prog \<Rightarrow> 'a \<times> pyarg list list" where
  "exec f (Return x) = (x, [])"
| "exec f (Invoke a k) = (case exec f (k (f a)) of (x, calls) \<Rightarrow> (x, a # calls))"

primrec bind_prog :: "'a prog \<Rightarrow> ('a \<Rightarrow> 'b prog) \<Rightarrow> 'b prog" where
  "bind_prog (Return x) g = g x"
| "bind_prog (Invoke a k) g = Invoke a (\<lambda>r. bind_prog (k r) g)"

text \<open>
  The whole-column branch. \<open>last_arg_type\<close> is the value of \<^verbatim>\<open>arg_type\<close> when the
  loop over the arguments has ended (reading \<^verbatim>\<open>self._arg_types\<close> raises when it is
  empty), and \<open>column_call_args\<close> are the generators handed to the registry function.
\<close>

definition last_arg_type :: "pytype option list \<Rightarrow> arg list \<Rightarrow> error + pytype option" where
  "last_arg_type arg_types args =
     (if args = [] then Inr None else arg_type_at arg_types (length args - 1))"

definition column_call_args ::
  "utils \<Rightarrow> pytype option \<Rightarrow> arg list \<Rightarrow> nat \<Rightarrow> bool \<Rightarrow> pyarg list" where
  "column_call_args u arg_type args row_count filt =
     map (\<lambda>arg. Seq (map (convert_elem u arg_type) (arg_fvalues arg row_count filt))) args"

definition Call_column_wise_prog ::
  "utils \<Rightarrow> arg list \<Rightarrow> call \<Rightarrow> nat \<Rightarrow> bool \<Rightarrow> ((error + val) \<times> call) prog" where
  "Call_column_wise_prog u args c row_count filt =
     (case c_cached_value c of
        Some value \<Rightarrow> Return (Inr value, c)
      | None \<Rightarrow>
          (case last_arg_type (c_arg_types c) args of
             Inl e \<Rightarrow> Return (Inl e, c)
           | Inr arg_type \<Rightarrow>
               Invoke (column_call_args u arg_type args row_count filt)
                 (\<lambda>r. case r of
                    Inl e \<Rightarrow> Return (Inl e, c)
                  | Inr value \<Rightarrow> Return (Inr value, c\<lparr>c_cached_value := Some value\<rparr>))))"

fun convert_args :: "utils \<Rightarrow> pytype option list \<Rightarrow> nat \<Rightarrow> val list \<Rightarrow> error + val list" where
  "convert_args u arg_types i [] = Inr []"
| "convert_args u arg_types i (v # vs) =
     (case arg_type_at arg_types i of
        Inl e \<Rightarrow> Inl e
      | Inr arg_type \<Rightarrow>
          (case convert_args u arg_types (Suc i) vs of
             Inl e \<Rightarrow> Inl e
           | Inr ws \<Rightarrow> Inr (convert u v arg_type # ws)))"

definition Call_row_wise_prog ::
  "utils \<Rightarrow> arg list \<Rightarrow> call \<Rightarrow> nat \<Rightarrow> nat \<Rightarrow> ((error + val) \<times> call) prog" where
  "Call_row_wise_prog u args c index row_count =
     (case sequence (map (\<lambda>arg. arg_fvalue arg index row_count False) args) of
        Inl e \<Rightarrow> Return (Inl e, c)
      | Inr vs \<Rightarrow>
          (case convert_args u (c_arg_types c) 0 vs of
             Inl e \<Rightarrow> Return (Inl e, c)
           | Inr ws \<Rightarrow>
               Invoke (Scalar (IntV (int index)) # map Scalar ws) (\<lambda>r. Return (r, c))))"

definition Call_fvalue_prog ::
  "utils \<Rightarrow> arg list \<Rightarrow> call \<Rightarrow> nat \<Rightarrow> nat \<Rightarrow> bool \<Rightarrow> ((error + val) \<times> call) prog" where
  "Call_fvalue_prog u args c index row_count filt =
     (if f_name (c_function c) = ''OFFSET'' then Return (Call_offset u args index row_count, c)
      else if is_column_wise (f_meta (c_function c)) then Call_column_wise_prog u args c row_count filt
      else Call_row_wise_prog u args c index row_count)"

text \<open>
  \<^verbatim>\<open>Call.fvalue\<close> as a function: the program run against the function of the node. The
  third component is the number of applications that \<open>exec\<close> has recorded.
\<close>

definition Call_fvalue ::
  "utils \<Rightarrow> arg list \<Rightarrow> call \<Rightarrow> nat \<Rightarrow> nat \<Rightarrow> bool \<Rightarrow> (error + val) \<times> call \<times> nat" where
  "Call_fvalue u args c index row_count filt =
     (case exec (f_call (c_function c)) (Call_fvalue_prog u args c index row_count filt) of
        ((r, c'), calls) \<Rightarrow> (r, c', length calls))"

definition Call_needs_recalc :: "call \<Rightarrow> bool" where
  "Call_needs_recalc c = (c_cached_value c = None)"

text \<open>
  A run of evaluations at the given \<^verbatim>\<open>(index, row_count, filt)\<close>, one after the other
  on the same object: the program gives the results and the object at the end.
\<close>

fun Call_run_prog ::
  "utils \<Rightarrow> arg list \<Rightarrow> call \<Rightarrow> (nat \<times> nat \<times> bool) list \<Rightarrow> ((error + val) list \<times> call) prog" where
  "Call_run_prog u args c [] = Return ([], c)"
| "Call_run_prog u args c ((index, row_count, filt) # qs) =
     bind_prog (Call_fvalue_prog u args c index row_count filt)
       (\<lambda>x. bind_prog (Call_run_prog u args (snd x) qs)
          (\<lambda>y. Return (fst x # fst y, snd y)))"

subsection \<open>Level discovery\<close>

text \<open>
  Modelled from the spec: \<^verbatim>\<open>FValues\<close> is not among the sources. By section 2 it is the
  lazy column view of a node, the ordered sequence of its per-row values; without a filter
  these are the values of \<^verbatim>\<open>fvalue(i, row_count, False)\<close> for the rows
  \<open>0, \<dots>, row_count - 1\<close>. Reading stops at the first row that raises.
\<close>

fun Call_fvalues_rows ::
  "utils \<Rightarrow> arg list \<Rightarrow> call \<Rightarrow> nat list \<Rightarrow> nat \<Rightarrow> (error + val list) \<times> call" where
  "Call_fvalues_rows u args c [] row_count = (Inr [], c)"
| "Call_fvalues_rows u args c (i # rows) row_count =
     (case Call_fvalue u args c i row_count False of
        (Inl e, c', k) \<Rightarrow> (Inl e, c')
      | (Inr v, c', k) \<Rightarrow>
          (case Call_fvalues_rows u args c' rows row_count of
             (Inl e, c'') \<Rightarrow> (Inl e, c'')
           | (Inr vs, c'') \<Rightarrow> (Inr (v # vs), c'')))"

definition Call_fvalues :: "utils \<Rightarrow> arg list \<Rightarrow> call \<Rightarrow> nat \<Rightarrow> (error + val list) \<times> call" where
  "Call_fvalues u args c row_count = Call_fvalues_rows u args c [0..<row_count] row_count"

text \<open>
  The ordered dictionary \<^verbatim>\<open>level_use\<close>: assigning to a key that is present keeps its
  place, a new key goes to the end.
\<close>

fun od_set :: "(string \<times> nat) list \<Rightarrow> string \<Rightarrow> nat \<Rightarrow> (string \<times> nat) list" where
  "od_set [] k n = [(k, n)]"
| "od_set ((k', n') # kvs) k n = (if k' = k then (k, n) # kvs else (k', n') # od_set kvs k n)"

fun od_incr :: "(string \<times> nat) list \<Rightarrow> string \<Rightarrow> (string \<times> nat) list" where
  "od_incr [] k = []"
| "od_incr ((k', n') # kvs) k = (if k' = k then (k', Suc n') # kvs else (k', n') # od_incr kvs k)"

text \<open>The first loop of \<^verbatim>\<open>get_levels\<close>, over \<^verbatim>\<open>arg_level_indices\<close>.\<close>

fun collect_levels ::
  "arg list \<Rightarrow> nat \<Rightarrow> nat list \<Rightarrow> (string \<times> nat) list \<Rightarrow> (string \<times> nat) list" where
  "collect_levels args row_count [] level_use = level_use"
| "collect_levels args row_count (arg_i # is) level_use =
     (if arg_i < length args then
        (if \<not> arg_has_levels (args ! arg_i) then collect_levels args row_count is level_use
         else collect_levels args row_count is
                (foldl (\<lambda>lu level. od_set lu (snd level) 0) level_use
                   (arg_get_levels (args ! arg_i) row_count)))
      else collect_levels args row_count is level_use)"

text \<open>The second loop, over the values of the node's own column.\<close>

fun count_use :: "utils \<Rightarrow> val list \<Rightarrow> (string \<times> nat) list \<Rightarrow> (string \<times> nat) list" where
  "count_use u [] level_use = level_use"
| "count_use u (v # vs) level_use =
     (if is_missing u v then count_use u vs level_use
      else case convert u v (Some TStr) of
        StrV s \<Rightarrow> count_use u vs (od_incr level_use s)
      | _ \<Rightarrow> count_use u vs level_use)"

text \<open>The last loop: \<^verbatim>\<open>levels[i] = (i, levels[i])\<close>.\<close>

definition enumerate_levels :: "string list \<Rightarrow> (int \<times> string) list" where
  "enumerate_levels levels = map (\<lambda>i. (int i, levels ! i)) [0..<length levels]"

definition used_levels :: "(string \<times> nat) list \<Rightarrow> (int \<times> string) list" where
  "used_levels level_use = enumerate_levels (map fst (filter (\<lambda>kv. snd kv > 0) level_use))"

definition Call_get_levels ::
  "utils \<Rightarrow> arg list \<Rightarrow> call \<Rightarrow> nat \<Rightarrow> (error + (int \<times> string) list) \<times> call" where
  "Call_get_levels u args c row_count =
     (let arg_level_indices = arg_level_indices (f_meta (c_function c)) in
      if length arg_level_indices = 0 then (Inr [], c)
      else if length args = 0 then (Inr [], c)
      else case Call_data_type args c of (dt, c1) \<Rightarrow>
        if dt \<noteq> Some TEXT then (Inr [], c1)
        else case Call_measure_type args c1 of (mt, c2) \<Rightarrow>
          if mt = Some ID then (Inr [], c2)
          else
            let level_use = collect_levels args row_count arg_level_indices [] in
            (case Call_fvalues u args c2 row_count of
               (Inl e, c3) \<Rightarrow> (Inl e, c3)
             | (Inr values, c3) \<Rightarrow> (Inr (used_levels (count_use u values level_use)), c3)))"

text \<open>
  The words of the spec, to compare \<open>Call_get_levels\<close> with. The candidate labels are
  the labels of the levels of the level-source arguments, in the order in which they are
  met, each label once. A label is used when a value of the column that is not missing
  converts to it. The labels in the order of their first use are the used candidates in
  the order in which the column first shows them.
\<close>

definition keep_first :: "'a list \<Rightarrow> 'a list" where
  "keep_first xs = fold (\<lambda>x acc. if x \<in> set acc then acc else acc @ [x]) xs []"

definition candidate_labels :: "arg list \<Rightarrow> nat \<Rightarrow> nat list \<Rightarrow> string list" where
  "candidate_labels args row_count idx =
     keep_first (concat (map (\<lambda>i. map snd (arg_get_levels (args ! i) row_count))
        (filter (\<lambda>i. i < length args \<and> arg_has_levels (args ! i)) idx)))"

definition label_used :: "utils \<Rightarrow> val list \<Rightarrow> string \<Rightarrow> bool" where
  "label_used u values k =
     (\<exists>v\<in>set values. \<not> is_missing u v \<and> convert u v (Some TStr) = StrV k)"

definition labels_of :: "utils \<Rightarrow> val list \<Rightarrow> string list" where
  "labels_of u values =
     concat (map (\<lambda>v. if is_missing u v then []
                      else case convert u v (Some TStr) of StrV s \<Rightarrow> [s] | _ \<Rightarrow> []) values)"

definition first_use_labels :: "utils \<Rightarrow> val list \<Rightarrow> string list \<Rightarrow> string list" where
  "first_use_labels u values candidates =
     keep_first (filter (\<lambda>k. k \<in> set candidates) (labels_of u values))"

section \<open>The dependency graph\<close>

text \<open>
  Nodes are objects: several nodes may hold a reference to the same node, every node
  has its list \<^verbatim>\<open>_node_parents\<close>, and the constructor of a call appends to the
  argument list it was given. The store maps addresses to nodes and to list objects.
  A node is its parent list and the fields of its class that the dependency graph needs:
  the children of an operator node, and for a call its attributes and the address of its
  argument list (absent until \<^verbatim>\<open>ast.Call.__init__\<close> has run). \<open>HLeaf\<close> is a node
  without children (a literal or a column reference), whose \<^verbatim>\<open>_release\<close> does nothing.
  An address that holds no object cannot occur in Python; the model answers
  \<open>Unmodelled\<close>.
\<close>

datatype hobj =
    HLeaf
  | HUnaryOp nat
  | HBoolOp "nat list"
  | HBinOp nat nat
  | HCompare nat "nat list"
  | HCall call "nat option"

record hnode =
  node_parents :: "nat list"
  node_obj :: hobj

record heap =
  h_nodes :: "nat \<rightharpoonup> hnode"
  h_lists :: "nat \<rightharpoonup> nat list"
  h_next :: nat

text \<open>\<^verbatim>\<open>_add_node_parent\<close> appends; \<^verbatim>\<open>_remove_node_parent\<close> is \<^verbatim>\<open>list.remove\<close>, which
  removes the first occurrence and raises \<^verbatim>\<open>ValueError\<close> when there is none.\<close>

definition add_node_parent :: "heap \<Rightarrow> nat \<Rightarrow> nat \<Rightarrow> error + heap" where
  "add_node_parent h n p =
     (case h_nodes h n of
        None \<Rightarrow> Inl Unmodelled
      | Some nd \<Rightarrow> Inr (h\<lparr>h_nodes := (h_nodes h)(n \<mapsto> nd\<lparr>node_parents := node_parents nd @ [p]\<rparr>)\<rparr>))"

definition remove_node_parent :: "heap \<Rightarrow> nat \<Rightarrow> nat \<Rightarrow> error + heap" where
  "remove_node_parent h n p =
     (case h_nodes h n of
        None \<Rightarrow> Inl Unmodelled
      | Some nd \<Rightarrow>
          if p \<in> set (node_parents nd)
          then Inr (h\<lparr>h_nodes := (h_nodes h)(n \<mapsto> nd\<lparr>node_parents := remove1 p (node_parents nd)\<rparr>)\<rparr>)
          else Inl ValueError)"

text \<open>
  \<^verbatim>\<open>_release\<close> of every class. The recursion follows the references of the store, so
  it carries fuel: \<open>None\<close> means that the fuel has run out.
\<close>

fun release :: "nat \<Rightarrow> heap \<Rightarrow> nat \<Rightarrow> (error + heap) option"
  and release_each :: "nat \<Rightarrow> heap \<Rightarrow> nat \<Rightarrow> nat list \<Rightarrow> (error + heap) option" where
  "release 0 h n = None"
| "release (Suc k) h n =
     (case h_nodes h n of
        None \<Rightarrow> Some (Inl Unmodelled)
      | Some nd \<Rightarrow>
          (case node_obj nd of
             HLeaf \<Rightarrow> Some (Inr h)
           | HUnaryOp operand \<Rightarrow> release_each k h n [operand]
           | HBoolOp vs \<Rightarrow> release_each k h n vs
           | HCompare l cs \<Rightarrow> release_each k h n (l # cs)
           | HCall c args \<Rightarrow>
               (case args of
                  None \<Rightarrow> Some (Inl Unmodelled)
                | Some a \<Rightarrow>
                    (case h_lists h a of
                       None \<Rightarrow> Some (Inl Unmodelled)
                     | Some xs \<Rightarrow> release_each k h n xs))
           | HBinOp l r \<Rightarrow>
               (case release k h l of
                  None \<Rightarrow> None
                | Some (Inl e) \<Rightarrow> Some (Inl e)
                | Some (Inr h1) \<Rightarrow>
                    (case release k h1 r of
                       None \<Rightarrow> None
                     | Some (Inl e) \<Rightarrow> Some (Inl e)
                     | Some (Inr h2) \<Rightarrow>
                         (case remove_node_parent h2 l n of
                            Inl e \<Rightarrow> Some (Inl e)
                          | Inr h3 \<Rightarrow> Some (remove_node_parent h3 r n))))))"
| "release_each k h n [] = Some (Inr h)"
| "release_each k h n (x # xs) =
     (case release k h x of
        None \<Rightarrow> None
      | Some (Inl e) \<Rightarrow> Some (Inl e)
      | Some (Inr h1) \<Rightarrow>
          (case remove_node_parent h1 x n of
             Inl e \<Rightarrow> Some (Inl e)
           | Inr h2 \<Rightarrow> release_each k h2 n xs))"


text \<open>
  \<^verbatim>\<open>set_needs_recalc\<close>: a call clears its memo first (\<open>clear_memo\<close> leaves a node
  of another class as it is); every node then notifies its parents in the order of the
  list. The second component of the result lists the nodes
  whose \<^verbatim>\<open>set_needs_recalc\<close> has run, in order.
\<close>

definition clear_memo :: "hnode \<Rightarrow> hnode" where
  "clear_memo nd =
     (case node_obj nd of
        HCall c args \<Rightarrow> nd\<lparr>node_obj := HCall (c\<lparr>c_cached_value := None\<rparr>) args\<rparr>
      | _ \<Rightarrow> nd)"

fun set_needs_recalc :: "nat \<Rightarrow> heap \<Rightarrow> nat \<Rightarrow> (error + heap \<times> nat list) option"
  and notify_parents :: "nat \<Rightarrow> heap \<Rightarrow> nat list \<Rightarrow> (error + heap \<times> nat list) option" where
  "set_needs_recalc 0 h n = None"
| "set_needs_recalc (Suc k) h n =
     (case h_nodes h n of
        None \<Rightarrow> Some (Inl Unmodelled)
      | Some nd \<Rightarrow>
          (case notify_parents k (h\<lparr>h_nodes := (h_nodes h)(n \<mapsto> clear_memo nd)\<rparr>)
                  (node_parents nd) of
             None \<Rightarrow> None
           | Some (Inl e) \<Rightarrow> Some (Inl e)
           | Some (Inr (h', trace)) \<Rightarrow> Some (Inr (h', n # trace))))"
| "notify_parents k h [] = Some (Inr (h, []))"
| "notify_parents k h (p # ps) =
     (case set_needs_recalc k h p of
        None \<Rightarrow> None
      | Some (Inl e) \<Rightarrow> Some (Inl e)
      | Some (Inr (h1, t1)) \<Rightarrow>
          (case notify_parents k h1 ps of
             None \<Rightarrow> None
           | Some (Inl e) \<Rightarrow> Some (Inl e)
           | Some (Inr (h2, t2)) \<Rightarrow> Some (Inr (h2, t1 @ t2))))"

text \<open>
  The store in which the memo of every node of a set has been cleared, and the stores in
  which the parent references lead to nodes and never back: the parents of a node have a
  smaller rank. Both are used to state what a notification does.
\<close>

definition clear_set :: "heap \<Rightarrow> nat set \<Rightarrow> heap" where
  "clear_set h S =
     h\<lparr>h_nodes := (\<lambda>m. if m \<in> S then map_option clear_memo (h_nodes h m) else h_nodes h m)\<rparr>"

definition wf_parents :: "heap \<Rightarrow> (nat \<Rightarrow> nat) \<Rightarrow> bool" where
  "wf_parents h rank =
     (\<forall>n nd p. h_nodes h n = Some nd \<and> p \<in> set (node_parents nd) \<longrightarrow>
        h_nodes h p \<noteq> None \<and> rank p < rank n)"

text \<open>
  What the spec says of a notification (section 4.1): it goes to every parent, which in
  turn passes it on to its own parents, and a node that is reached along several paths is
  visited once for each. \<open>notifies P n t\<close> says that \<open>t\<close> is the order of the visits when
  \<open>n\<close> is notified, \<open>P\<close> giving the parent list of every node: \<open>n\<close> first, then the
  visits of the notification of its first parent, then those of its second parent, and
  so on. \<open>parent_rel\<close> relates a node to each of its parents.
\<close>

definition parents_of :: "heap \<Rightarrow> nat \<rightharpoonup> nat list" where
  "parents_of h n = map_option node_parents (h_nodes h n)"

inductive notifies :: "(nat \<rightharpoonup> nat list) \<Rightarrow> nat \<Rightarrow> nat list \<Rightarrow> bool" for P where
  "P n = Some ps \<Longrightarrow> list_all2 (notifies P) ps ts \<Longrightarrow> notifies P n (n # concat ts)"

code_pred notifies .

definition parent_rel :: "heap \<Rightarrow> (nat \<times> nat) set" where
  "parent_rel h = {(n, p). \<exists>nd. h_nodes h n = Some nd \<and> p \<in> set (node_parents nd)}"

subsection \<open>Construction of a call\<close>

text \<open>
  \<^verbatim>\<open>Call.__init__(func, args, keywords)\<close>, with \<open>name\<close> for \<^verbatim>\<open>func.id\<close> and the
  address of the list \<^verbatim>\<open>args\<close>. The keywords are passed on and never read. The new
  object gets the next free address, and the slice \<^verbatim>\<open>args[0:sub_arg_len]\<close> is a new
  list, which every synthesized call receives as its own argument list.
  \<open>sub_functions\<close> is the loop over \<^verbatim>\<open>range(sub_arg_len, len(param_names))\<close>.
\<close>

type_synonym registry = "string \<rightharpoonup> func"

fun is_fn_default :: "param \<Rightarrow> bool" where
  "is_fn_default p = (case p_default p of FnDefault name \<Rightarrow> True | _ \<Rightarrow> False)"

definition sub_arg_len :: "param list \<Rightarrow> nat" where
  "sub_arg_len param_names = length param_names - length (takeWhile is_fn_default (rev param_names))"

fun add_node_parents :: "heap \<Rightarrow> nat list \<Rightarrow> nat \<Rightarrow> error + heap" where
  "add_node_parents h [] p = Inr h"
| "add_node_parents h (x # xs) p =
     (case add_node_parent h x p of Inl e \<Rightarrow> Inl e | Inr h1 \<Rightarrow> add_node_parents h1 xs p)"

function Call_init :: "nat \<Rightarrow> registry \<Rightarrow> heap \<Rightarrow> string \<Rightarrow> nat \<Rightarrow> (error + heap \<times> nat) option"
  and sub_functions ::
    "nat \<Rightarrow> registry \<Rightarrow> heap \<Rightarrow> nat \<Rightarrow> nat \<Rightarrow> param list \<Rightarrow> nat \<Rightarrow> (error + heap) option" where
  "Call_init 0 reg h name args = None"
| "Call_init (Suc k) reg h name args =
     (case reg name of
        None \<Rightarrow> Some (Inl NameError)
      | Some f \<Rightarrow>
          if is_row_wise (f_meta f) \<and> f_params f = [] then Some (Inl IndexError)
          else
            (case h_lists h args of
               None \<Rightarrow> Some (Inl Unmodelled)
             | Some xs \<Rightarrow>
                 let param_names = (if is_row_wise (f_meta f) then tl (f_params f) else f_params f);
                     self = h_next h;
                     sub_func_args = Suc self;
                     c = fresh_call f;
                     h0 = h\<lparr>h_nodes := (h_nodes h)(self \<mapsto> \<lparr>node_parents = [], node_obj = HCall c None\<rparr>),
                            h_lists := (h_lists h)(sub_func_args \<mapsto> take (sub_arg_len param_names) xs),
                            h_next := Suc (Suc self)\<rparr>
                 in (case sub_functions k reg h0 args sub_func_args param_names (sub_arg_len param_names) of
                       None \<Rightarrow> None
                     | Some (Inl e) \<Rightarrow> Some (Inl e)
                     | Some (Inr h1) \<Rightarrow>
                         Some (Inr (h1\<lparr>h_nodes := (h_nodes h1)
                                      (self \<mapsto> \<lparr>node_parents = (case h_nodes h1 self of
                                                                    None \<Rightarrow> [] | Some nd \<Rightarrow> node_parents nd),
                                                 node_obj = HCall c (Some args)\<rparr>)\<rparr>, self)))))"
| "sub_functions k reg h args sub_func_args param_names i =
     (if i < length param_names then
        (case h_lists h args of
           None \<Rightarrow> Some (Inl Unmodelled)
         | Some xs \<Rightarrow>
             if length xs \<le> i then
               (case p_default (param_names ! i) of
                  FnDefault sub_func_name \<Rightarrow>
                    (case Call_init k reg h sub_func_name sub_func_args of
                       None \<Rightarrow> None
                     | Some (Inl e) \<Rightarrow> Some (Inl e)
                     | Some (Inr (h1, new_func)) \<Rightarrow>
                         (case h_lists h1 sub_func_args of
                            None \<Rightarrow> Some (Inl Unmodelled)
                          | Some sf_args \<Rightarrow>
                              (case add_node_parents h1 sf_args new_func of
                                 Inl e \<Rightarrow> Some (Inl e)
                               | Inr h2 \<Rightarrow>
                                   (case h_lists h2 args of
                                      None \<Rightarrow> Some (Inl Unmodelled)
                                    | Some ys \<Rightarrow>
                                        sub_functions k reg
                                          (h2\<lparr>h_lists := (h_lists h2)(args \<mapsto> ys @ [new_func])\<rparr>)
                                          args sub_func_args param_names (Suc i)))))
                | _ \<Rightarrow> Some (Inl Unmodelled))
             else Some (Inr h))
      else Some (Inr h))"
  by pat_completeness auto
termination
  by (relation "inv_image (less_than <*lex*> less_than) (\<lambda>x. case x of
        Inl (k, reg, h, name, args) \<Rightarrow> (2 * k, 0)
      | Inr (k, reg, h, args, sfa, ps, i) \<Rightarrow> (2 * k + 1, length ps - i))") auto


subsection \<open>Concrete arguments and registry entries\<close>

text \<open>
  Modelled from the spec: the column leaf and the registry are not among the sources.
  \<open>column_arg\<close> is a column of row values as an argument of a call (section 6: value at
  a row, the column as a finite sequence, declared types and levels). The registry
  entries have the shape section 6 gives; \<^verbatim>\<open>Z\<close> has two trailing parameters whose
  defaults are functions, as the comment in \<^verbatim>\<open>Call.__init__\<close> says of \<^verbatim>\<open>Z()\<close>. The
  bodies are stand-ins: a sum of a column, a choice between two arguments of a row, and no
  body at all for the functions that are only constructed and released.
\<close>

definition column_arg :: "val list \<Rightarrow> DataType \<Rightarrow> MeasureType \<Rightarrow> (int \<times> string) list \<Rightarrow> arg" where
  "column_arg vals dt mt levels =
     \<lparr>arg_data_type = dt, arg_measure_type = mt,
      arg_has_levels = True, arg_get_levels = (\<lambda>row_count. levels),
      arg_fvalue = (\<lambda>index row_count filt.
        if index < length vals then Inr (vals ! index) else Inl IndexError),
      arg_fvalues = (\<lambda>row_count filt. map Inr (take row_count vals))\<rparr>"

fun sum_vals :: "val list \<Rightarrow> val \<Rightarrow> error + val" where
  "sum_vals [] acc = Inr acc"
| "sum_vals (v # vs) acc = (case py_add acc v of Inl e \<Rightarrow> Inl e | Inr a \<Rightarrow> sum_vals vs a)"

fun vsum_body :: "pyarg list \<Rightarrow> error + val" where
  "vsum_body [Seq xs] = (case sequence xs of Inl e \<Rightarrow> Inl e | Inr vs \<Rightarrow> sum_vals vs (IntV 0))"
| "vsum_body args = Inl TypeError"

fun if_body :: "pyarg list \<Rightarrow> error + val" where
  "if_body [Scalar index, Scalar cond, Scalar a, Scalar b] = Inr (if py_truthy cond then a else b)"
| "if_body args = Inl TypeError"

definition VSUM :: func where
  "VSUM = \<lparr>f_name = ''VSUM'',
     f_params = [\<lparr>p_annotation = Some TInt, p_default = NoDefault\<rparr>],
     f_meta = \<lparr>is_row_wise = False, is_column_wise = True, d_type = INTEGER, m_type = CONTINUOUS,
               returns = [0], arg_level_indices = []\<rparr>,
     f_call = vsum_body\<rparr>"

definition IF_fn :: func where
  "IF_fn = \<lparr>f_name = ''IF'',
     f_params = [\<lparr>p_annotation = None, p_default = NoDefault\<rparr>,
                 \<lparr>p_annotation = None, p_default = NoDefault\<rparr>,
                 \<lparr>p_annotation = None, p_default = NoDefault\<rparr>,
                 \<lparr>p_annotation = None, p_default = NoDefault\<rparr>],
     f_meta = \<lparr>is_row_wise = True, is_column_wise = False, d_type = INTEGER, m_type = NOMINAL,
               returns = [1, 2], arg_level_indices = [1, 2]\<rparr>,
     f_call = if_body\<rparr>"

definition no_body :: "pyarg list \<Rightarrow> error + val" where
  "no_body args = Inl Unmodelled"

definition column_fn :: "string \<Rightarrow> func" where
  "column_fn name = \<lparr>f_name = name,
     f_params = [\<lparr>p_annotation = Some TFloat, p_default = NoDefault\<rparr>],
     f_meta = \<lparr>is_row_wise = False, is_column_wise = True, d_type = DECIMAL, m_type = CONTINUOUS,
               returns = [], arg_level_indices = []\<rparr>,
     f_call = no_body\<rparr>"

definition Z_fn :: func where
  "Z_fn = \<lparr>f_name = ''Z'',
     f_params = [\<lparr>p_annotation = None, p_default = NoDefault\<rparr>,
                 \<lparr>p_annotation = Some TFloat, p_default = NoDefault\<rparr>,
                 \<lparr>p_annotation = None, p_default = FnDefault ''VMEAN''\<rparr>,
                 \<lparr>p_annotation = None, p_default = FnDefault ''VSTDEV''\<rparr>],
     f_meta = \<lparr>is_row_wise = True, is_column_wise = False, d_type = DECIMAL, m_type = CONTINUOUS,
               returns = [], arg_level_indices = []\<rparr>,
     f_call = no_body\<rparr>"

definition functions_module :: registry where
  "functions_module = [''Z'' \<mapsto> Z_fn, ''VMEAN'' \<mapsto> column_fn ''VMEAN'',
                ''VSTDEV'' \<mapsto> column_fn ''VSTDEV'', ''VSUM'' \<mapsto> VSUM, ''IF'' \<mapsto> IF_fn]"

text \<open>
  A store with a column at address 0, the call \<^verbatim>\<open>VSUM(column)\<close> at address 1 with its
  memo filled, a unary node over that call at address 2, and a call of \<^verbatim>\<open>VSUM\<close> over
  the unary node at address 3, its memo filled as well.
\<close>

definition vsum_heap :: heap where
  "vsum_heap =
     \<lparr>h_nodes = [0 \<mapsto> \<lparr>node_parents = [1], node_obj = HLeaf\<rparr>,
                  1 \<mapsto> \<lparr>node_parents = [2],
                         node_obj = HCall ((fresh_call VSUM)\<lparr>c_cached_value := Some (IntV 6)\<rparr>) (Some 4)\<rparr>,
                  2 \<mapsto> \<lparr>node_parents = [3], node_obj = HUnaryOp 1\<rparr>,
                  3 \<mapsto> \<lparr>node_parents = [],
                         node_obj = HCall ((fresh_call VSUM)\<lparr>c_cached_value := Some (IntV 7)\<rparr>) (Some 5)\<rparr>],
      h_lists = [4 \<mapsto> [0], 5 \<mapsto> [2]],
      h_next = 6\<rparr>"

text \<open>
  The arguments of \<^verbatim>\<open>IF(cond, a, b)\<close> over two rows: \<^verbatim>\<open>a\<close> is a text column with the
  level \<^verbatim>\<open>x\<close>, \<^verbatim>\<open>b\<close> one with the level \<^verbatim>\<open>y\<close>, and the condition holds in the
  second row only.
\<close>

definition if_args :: "arg list" where
  "if_args =
     [column_arg [IntV 0, IntV 1] INTEGER NOMINAL [],
      column_arg [StrV ''x'', StrV ''x''] TEXT NOMINAL [(0, ''x'')],
      column_arg [StrV ''y'', StrV ''y''] TEXT NOMINAL [(0, ''y'')]]"

text \<open>
  Modelled from the spec: the code that registers a call as a parent of its arguments is
  in the parser layer, which is not among the sources. By section 3 a node is added to
  the parent set of a node when that node is wired in as its argument; \<open>wire_args\<close>
  does this for every node of the argument list of a constructed call.
  \<open>compile_and_release\<close> constructs a call, wires it and releases it.
\<close>

definition wire_args :: "heap \<Rightarrow> nat \<Rightarrow> error + heap" where
  "wire_args h n =
     (case h_nodes h n of
        Some nd \<Rightarrow>
          (case node_obj nd of
             HCall c (Some a) \<Rightarrow>
               (case h_lists h a of Some xs \<Rightarrow> add_node_parents h xs n | None \<Rightarrow> Inl Unmodelled)
           | _ \<Rightarrow> Inl Unmodelled)
      | None \<Rightarrow> Inl Unmodelled)"

definition compile_and_release :: "nat \<Rightarrow> registry \<Rightarrow> heap \<Rightarrow> string \<Rightarrow> nat \<Rightarrow> (error + heap) option" where
  "compile_and_release k reg h name args =
     (case Call_init k reg h name args of
        None \<Rightarrow> None
      | Some (Inl e) \<Rightarrow> Some (Inl e)
      | Some (Inr (h1, outer)) \<Rightarrow>
          (case wire_args h1 outer of
             Inl e \<Rightarrow> Some (Inl e)
           | Inr h2 \<Rightarrow> release k h2 outer))"

text \<open>
  Two stores before a call \<^verbatim>\<open>Z(\<dots>)\<close> is constructed over the list at the last
  address: in the first the argument is the sum of two columns, \<^verbatim>\<open>Z(a + b)\<close>; in the
  second it is a column, \<^verbatim>\<open>Z(a)\<close>.
\<close>

definition z_sum_heap :: heap where
  "z_sum_heap =
     \<lparr>h_nodes = [0 \<mapsto> \<lparr>node_parents = [2], node_obj = HLeaf\<rparr>,
                  1 \<mapsto> \<lparr>node_parents = [2], node_obj = HLeaf\<rparr>,
                  2 \<mapsto> \<lparr>node_parents = [], node_obj = HBinOp 0 1\<rparr>],
      h_lists = [3 \<mapsto> [2]],
      h_next = 4\<rparr>"

definition z_column_heap :: heap where
  "z_column_heap =
     \<lparr>h_nodes = [0 \<mapsto> \<lparr>node_parents = [], node_obj = HLeaf\<rparr>],
      h_lists = [1 \<mapsto> [0]],
      h_next = 2\<rparr>"

text \<open>
  The reading of a comparator chain as a conjunction, stated on its own to compare the
  loop with: every adjacent pair of values passes its test, with as many operators as
  comparators.
\<close>

fun chain_holds :: "utils \<Rightarrow> val \<Rightarrow> cmpop list \<Rightarrow> val list \<Rightarrow> bool" where
  "chain_holds u v1 [] [] = True"
| "chain_holds u v1 (op # ops) (v2 # vs) =
     (Compare_test u v1 op v2 = Inr True \<and> chain_holds u v2 ops vs)"
| "chain_holds u v1 [] (v2 # vs) = False"
| "chain_holds u v1 (op # ops) [] = False"

section \<open>Properties of the boolean operator\<close>

lemma and_loop_prefix:
  "\<forall>x\<in>set xs. is_missing u x \<or> py_truthy (untuple x) \<Longrightarrow>
   and_loop u (map Inr xs @ rest) c k =
   and_loop u rest (last (c # filter (is_missing u) xs)) (k + length xs)"
  by (induction xs arbitrary: c k) auto

lemma or_loop_prefix:
  "\<forall>x\<in>set xs. is_missing u x \<or> \<not> py_truthy (untuple x) \<Longrightarrow>
   or_loop u (map Inr xs @ rest) c k =
   or_loop u rest (last (c # filter (is_missing u) xs)) (k + length xs)"
  by (induction xs arbitrary: c k) auto

text \<open>
  Claim C4. A boolean node evaluates its operands from left to right. For AND the carried
  value starts at 1; a missing operand value replaces it and the scan goes on; the first
  operand that is neither missing nor truthy ends the evaluation with 0, and the operands
  after it are not evaluated: the loop has then evaluated exactly the operands up to this
  one, whatever follows (even an operand that would raise). When the scan reaches the
  end, the carried value is returned: 1, or the last missing value seen. OR is the same
  with 0 as the start, and the first operand that is truthy and not missing gives 1.
  The hypotheses say that the operands before the deciding one evaluate to values.
\<close>

theorem BoolOp_fvalue_tristate:
  "(\<forall>xs y post.
      map (\<lambda>v. fvalue u v index row_count filt) vs = map Inr xs @ Inr y # post \<and>
      (\<forall>x\<in>set xs. is_missing u x \<or> py_truthy (untuple x)) \<and>
      \<not> is_missing u y \<and> \<not> py_truthy (untuple y) \<longrightarrow>
      BoolOp_run u And (map (\<lambda>v. fvalue u v index row_count filt) vs)
        = (Suc (length xs), Inr (IntV 0)) \<and>
      fvalue u (BoolOp And vs) index row_count filt = Inr (IntV 0)) \<and>
   (\<forall>xs.
      map (\<lambda>v. fvalue u v index row_count filt) vs = map Inr xs \<and>
      (\<forall>x\<in>set xs. is_missing u x \<or> py_truthy (untuple x)) \<longrightarrow>
      BoolOp_run u And (map (\<lambda>v. fvalue u v index row_count filt) vs)
        = (length xs, Inr (last (IntV 1 # filter (is_missing u) xs))) \<and>
      fvalue u (BoolOp And vs) index row_count filt
        = Inr (last (IntV 1 # filter (is_missing u) xs))) \<and>
   (\<forall>xs y post.
      map (\<lambda>v. fvalue u v index row_count filt) vs = map Inr xs @ Inr y # post \<and>
      (\<forall>x\<in>set xs. is_missing u x \<or> \<not> py_truthy (untuple x)) \<and>
      \<not> is_missing u y \<and> py_truthy (untuple y) \<longrightarrow>
      BoolOp_run u Or (map (\<lambda>v. fvalue u v index row_count filt) vs)
        = (Suc (length xs), Inr (IntV 1)) \<and>
      fvalue u (BoolOp Or vs) index row_count filt = Inr (IntV 1)) \<and>
   (\<forall>xs.
      map (\<lambda>v. fvalue u v index row_count filt) vs = map Inr xs \<and>
      (\<forall>x\<in>set xs. is_missing u x \<or> \<not> py_truthy (untuple x)) \<longrightarrow>
      BoolOp_run u Or (map (\<lambda>v. fvalue u v index row_count filt) vs)
        = (length xs, Inr (last (IntV 0 # filter (is_missing u) xs))) \<and>
      fvalue u (BoolOp Or vs) index row_count filt
        = Inr (last (IntV 0 # filter (is_missing u) xs)))"
  (is "?A1 \<and> ?A2 \<and> ?O1 \<and> ?O2")
proof -
  have fv: "fvalue u (BoolOp op vs) index row_count filt
      = snd (BoolOp_run u op (map (\<lambda>v. fvalue u v index row_count filt) vs))" for op
    by simp
  have A1: ?A1
  proof (intro allI impI, elim conjE)
    fix xs y post
    assume rs: "map (\<lambda>v. fvalue u v index row_count filt) vs = map Inr xs @ Inr y # post"
      and ok: "\<forall>x\<in>set xs. is_missing u x \<or> py_truthy (untuple x)"
      and y: "\<not> is_missing u y" "\<not> py_truthy (untuple y)"
    have "BoolOp_run u And (map Inr xs @ Inr y # post) = (Suc (length xs), Inr (IntV 0))"
      using y by (simp add: and_loop_prefix [OF ok])
    then show "BoolOp_run u And (map (\<lambda>v. fvalue u v index row_count filt) vs)
        = (Suc (length xs), Inr (IntV 0)) \<and>
      fvalue u (BoolOp And vs) index row_count filt = Inr (IntV 0)"
      unfolding fv rs by simp
  qed
  have A2: ?A2
  proof (intro allI impI, elim conjE)
    fix xs
    assume rs: "map (\<lambda>v. fvalue u v index row_count filt) vs = map Inr xs"
      and ok: "\<forall>x\<in>set xs. is_missing u x \<or> py_truthy (untuple x)"
    have "BoolOp_run u And (map Inr xs)
        = (length xs, Inr (last (IntV 1 # filter (is_missing u) xs)))"
      using and_loop_prefix [OF ok, of "[]" "IntV 1" 0] by simp
    then show "BoolOp_run u And (map (\<lambda>v. fvalue u v index row_count filt) vs)
        = (length xs, Inr (last (IntV 1 # filter (is_missing u) xs))) \<and>
      fvalue u (BoolOp And vs) index row_count filt
        = Inr (last (IntV 1 # filter (is_missing u) xs))"
      unfolding fv rs by simp
  qed
  have O1: ?O1
  proof (intro allI impI, elim conjE)
    fix xs y post
    assume rs: "map (\<lambda>v. fvalue u v index row_count filt) vs = map Inr xs @ Inr y # post"
      and ok: "\<forall>x\<in>set xs. is_missing u x \<or> \<not> py_truthy (untuple x)"
      and y: "\<not> is_missing u y" "py_truthy (untuple y)"
    have "BoolOp_run u Or (map Inr xs @ Inr y # post) = (Suc (length xs), Inr (IntV 1))"
      using y by (simp add: or_loop_prefix [OF ok])
    then show "BoolOp_run u Or (map (\<lambda>v. fvalue u v index row_count filt) vs)
        = (Suc (length xs), Inr (IntV 1)) \<and>
      fvalue u (BoolOp Or vs) index row_count filt = Inr (IntV 1)"
      unfolding fv rs by simp
  qed
  have O2: ?O2
  proof (intro allI impI, elim conjE)
    fix xs
    assume rs: "map (\<lambda>v. fvalue u v index row_count filt) vs = map Inr xs"
      and ok: "\<forall>x\<in>set xs. is_missing u x \<or> \<not> py_truthy (untuple x)"
    have "BoolOp_run u Or (map Inr xs)
        = (length xs, Inr (last (IntV 0 # filter (is_missing u) xs)))"
      using or_loop_prefix [OF ok, of "[]" "IntV 0" 0] by simp
    then show "BoolOp_run u Or (map (\<lambda>v. fvalue u v index row_count filt) vs)
        = (length xs, Inr (last (IntV 0 # filter (is_missing u) xs))) \<and>
      fvalue u (BoolOp Or vs) index row_count filt
        = Inr (last (IntV 0 # filter (is_missing u) xs))"
      unfolding fv rs by simp
  qed
  from A1 A2 O1 O2 show ?thesis by blast
qed


theorem BoolOp_fvalue_tristate_witness:
  "BoolOp_run spec_utils And (map (\<lambda>v. fvalue spec_utils v 0 1 False)
      [Num (IntV 1), Src (column [NaN] DECIMAL CONTINUOUS), Num (IntV 0), Src (column [] INTEGER NOMINAL)])
     = (3, Inr (IntV 0)) \<and>
   fvalue spec_utils (BoolOp And
      [Num (IntV 1), Src (column [NaN] DECIMAL CONTINUOUS), Num (IntV 0), Src (column [] INTEGER NOMINAL)])
      0 1 False = Inr (IntV 0) \<and>
   fvalue spec_utils (BoolOp And
      [Num (IntV 1), Src (column [NaN] DECIMAL CONTINUOUS), Num (IntV 2)]) 0 1 False = Inr NaN \<and>
   BoolOp_run spec_utils Or (map (\<lambda>v. fvalue spec_utils v 0 1 False)
      [Num (IntV 0), Src (column [NaN] DECIMAL CONTINUOUS), Num (IntV 5), Src (column [] INTEGER NOMINAL)])
     = (3, Inr (IntV 1)) \<and>
   fvalue spec_utils (BoolOp Or
      [Num (IntV 0), Src (column [NaN] DECIMAL CONTINUOUS), Num (IntV 0)]) 0 1 False = Inr NaN"
proof -
  let ?m = "Src (column [NaN] DECIMAL CONTINUOUS)"
  let ?e = "Src (column [] INTEGER NOMINAL)"
  have a1: "BoolOp_run spec_utils And (map (\<lambda>v. fvalue spec_utils v 0 1 False)
      [Num (IntV 1), ?m, Num (IntV 0), ?e]) = (3, Inr (IntV 0)) \<and>
     fvalue spec_utils (BoolOp And [Num (IntV 1), ?m, Num (IntV 0), ?e]) 0 1 False = Inr (IntV 0)"
    using BoolOp_fvalue_tristate [of spec_utils 0 1 False "[Num (IntV 1), ?m, Num (IntV 0), ?e]",
        THEN conjunct1, rule_format, of "[IntV 1, NaN]" "IntV 0" "[Inl IndexError]"]
    by (simp add: spec_utils_def column_def INT_MISSING_def)
  have a2: "fvalue spec_utils (BoolOp And [Num (IntV 1), ?m, Num (IntV 2)]) 0 1 False = Inr NaN"
    using BoolOp_fvalue_tristate [of spec_utils 0 1 False "[Num (IntV 1), ?m, Num (IntV 2)]",
        THEN conjunct2, THEN conjunct1, rule_format, of "[IntV 1, NaN, IntV 2]"]
    by (simp add: spec_utils_def column_def INT_MISSING_def)
  have o1: "BoolOp_run spec_utils Or (map (\<lambda>v. fvalue spec_utils v 0 1 False)
      [Num (IntV 0), ?m, Num (IntV 5), ?e]) = (3, Inr (IntV 1))"
    using BoolOp_fvalue_tristate [of spec_utils 0 1 False "[Num (IntV 0), ?m, Num (IntV 5), ?e]",
        THEN conjunct2, THEN conjunct2, THEN conjunct1, rule_format,
        of "[IntV 0, NaN]" "IntV 5" "[Inl IndexError]"]
    by (simp add: spec_utils_def column_def INT_MISSING_def)
  have o2: "fvalue spec_utils (BoolOp Or [Num (IntV 0), ?m, Num (IntV 0)]) 0 1 False = Inr NaN"
    using BoolOp_fvalue_tristate [of spec_utils 0 1 False "[Num (IntV 0), ?m, Num (IntV 0)]",
        THEN conjunct2, THEN conjunct2, THEN conjunct2, rule_format, of "[IntV 0, NaN, IntV 0]"]
    by (simp add: spec_utils_def column_def INT_MISSING_def)
  from a1 a2 o1 o2 show ?thesis by simp
qed


section \<open>Properties of the comparator chain\<close>

lemma compare_loop_prefix:
  "chain_holds u v1 ops1 xs \<Longrightarrow> \<forall>x\<in>set xs. \<not> is_missing u x \<Longrightarrow>
   compare_loop u v1 (ops1 @ ops2) (map Inr xs @ rest) = compare_loop u (last (v1 # xs)) ops2 rest"
proof (induction u v1 ops1 xs rule: chain_holds.induct)
  case (1 u v1)
  then show ?case by simp
next
  case (2 u v1 op ops v2 vs)
  then show ?case by simp
next
  case (3 u v1 v2 vs)
  then show ?case by simp
next
  case (4 u v1 op ops)
  then show ?case by simp
qed

text \<open>
  Claim C3, as stated, fails: the chain \<^verbatim>\<open>2 < 1 < x\<close> with \<^verbatim>\<open>x\<close> missing in the
  row evaluates to 0, not to the missing sentinel. The loop returns 0 at the first failing
  pair and never evaluates the operand after it.
\<close>

theorem Compare_fvalue_counterexample:
  "fvalue spec_utils (Src (column [NaN] DECIMAL CONTINUOUS)) 0 1 False = Inr NaN \<and>
   is_missing spec_utils NaN \<and>
   fvalue spec_utils
     (Compare (Num (IntV 2)) [Lt, Lt] [Num (IntV 1), Src (column [NaN] DECIMAL CONTINUOUS)])
     0 1 False = Inr (IntV 0) \<and>
   \<not> is_missing spec_utils (IntV 0) \<and>
   IntV 0 \<noteq> get_missing spec_utils (Some TInt)"
  by (simp add: spec_utils_def column_def INT_MISSING_def Compare_run_def Compare_test_def
      test_unpack_def py_lt_def)

text \<open>
  Claim C3, amended. A comparator chain is evaluated from left to right and stops at the
  first operand that is missing or the first pair that fails, whichever comes first:
  \<^item> a missing left operand gives the integer missing sentinel;
  \<^item> when the operands so far are not missing and their pairs hold, a missing next
    operand gives the integer missing sentinel, whatever follows;
  \<^item> when the operands so far are not missing and their pairs hold, a next operand that
    is not missing and fails its test against its predecessor gives 0, whatever follows
    (a later operand may be missing);
  \<^item> when no operand is missing and every adjacent pair holds, the result is 1.
\<close>

theorem Compare_fvalue_chain:
  "(\<forall>v0. fvalue u l index row_count filt = Inr v0 \<and> is_missing u v0 \<longrightarrow>
      fvalue u (Compare l ops cs) index row_count filt = Inr (get_missing u (Some TInt))) \<and>
   (\<forall>v0 xs y post ops1 op ops2.
      fvalue u l index row_count filt = Inr v0 \<and>
      map (\<lambda>c. fvalue u c index row_count filt) cs = map Inr xs @ Inr y # post \<and>
      ops = ops1 @ op # ops2 \<and>
      \<not> is_missing u v0 \<and> (\<forall>x\<in>set xs. \<not> is_missing u x) \<and>
      chain_holds u v0 ops1 xs \<and> is_missing u y \<longrightarrow>
      fvalue u (Compare l ops cs) index row_count filt = Inr (get_missing u (Some TInt))) \<and>
   (\<forall>v0 xs y post ops1 op ops2.
      fvalue u l index row_count filt = Inr v0 \<and>
      map (\<lambda>c. fvalue u c index row_count filt) cs = map Inr xs @ Inr y # post \<and>
      ops = ops1 @ op # ops2 \<and>
      \<not> is_missing u v0 \<and> (\<forall>x\<in>set xs. \<not> is_missing u x) \<and>
      chain_holds u v0 ops1 xs \<and> \<not> is_missing u y \<and>
      Compare_test u (last (v0 # xs)) op y = Inr False \<longrightarrow>
      fvalue u (Compare l ops cs) index row_count filt = Inr (IntV 0)) \<and>
   (\<forall>v0 xs.
      fvalue u l index row_count filt = Inr v0 \<and>
      map (\<lambda>c. fvalue u c index row_count filt) cs = map Inr xs \<and>
      \<not> is_missing u v0 \<and> (\<forall>x\<in>set xs. \<not> is_missing u x) \<and>
      chain_holds u v0 ops xs \<longrightarrow>
      fvalue u (Compare l ops cs) index row_count filt = Inr (IntV 1))"
proof (intro conjI)
  show "\<forall>v0. fvalue u l index row_count filt = Inr v0 \<and> is_missing u v0 \<longrightarrow>
      fvalue u (Compare l ops cs) index row_count filt = Inr (get_missing u (Some TInt))"
    by (simp add: Compare_run_def)
next
  show "\<forall>v0 xs y post ops1 op ops2.
      fvalue u l index row_count filt = Inr v0 \<and>
      map (\<lambda>c. fvalue u c index row_count filt) cs = map Inr xs @ Inr y # post \<and>
      ops = ops1 @ op # ops2 \<and>
      \<not> is_missing u v0 \<and> (\<forall>x\<in>set xs. \<not> is_missing u x) \<and>
      chain_holds u v0 ops1 xs \<and> is_missing u y \<longrightarrow>
      fvalue u (Compare l ops cs) index row_count filt = Inr (get_missing u (Some TInt))"
  proof (intro allI impI, elim conjE)
    fix v0 xs y post ops1 op ops2
    assume l: "fvalue u l index row_count filt = Inr v0"
      and cs: "map (\<lambda>c. fvalue u c index row_count filt) cs = map Inr xs @ Inr y # post"
      and ops: "ops = ops1 @ op # ops2"
      and v0: "\<not> is_missing u v0" and xs: "\<forall>x\<in>set xs. \<not> is_missing u x"
      and ch: "chain_holds u v0 ops1 xs" and y: "is_missing u y"
    show "fvalue u (Compare l ops cs) index row_count filt = Inr (get_missing u (Some TInt))"
      using v0 y by (simp add: Compare_run_def l cs ops compare_loop_prefix [OF ch xs])
  qed
next
  show "\<forall>v0 xs y post ops1 op ops2.
      fvalue u l index row_count filt = Inr v0 \<and>
      map (\<lambda>c. fvalue u c index row_count filt) cs = map Inr xs @ Inr y # post \<and>
      ops = ops1 @ op # ops2 \<and>
      \<not> is_missing u v0 \<and> (\<forall>x\<in>set xs. \<not> is_missing u x) \<and>
      chain_holds u v0 ops1 xs \<and> \<not> is_missing u y \<and>
      Compare_test u (last (v0 # xs)) op y = Inr False \<longrightarrow>
      fvalue u (Compare l ops cs) index row_count filt = Inr (IntV 0)"
  proof (intro allI impI, elim conjE)
    fix v0 xs y post ops1 op ops2
    assume l: "fvalue u l index row_count filt = Inr v0"
      and cs: "map (\<lambda>c. fvalue u c index row_count filt) cs = map Inr xs @ Inr y # post"
      and ops: "ops = ops1 @ op # ops2"
      and v0: "\<not> is_missing u v0" and xs: "\<forall>x\<in>set xs. \<not> is_missing u x"
      and ch: "chain_holds u v0 ops1 xs" and y: "\<not> is_missing u y"
      and t: "Compare_test u (last (v0 # xs)) op y = Inr False"
    show "fvalue u (Compare l ops cs) index row_count filt = Inr (IntV 0)"
      using v0 y t by (simp add: Compare_run_def l cs ops compare_loop_prefix [OF ch xs])
  qed
next
  show "\<forall>v0 xs.
      fvalue u l index row_count filt = Inr v0 \<and>
      map (\<lambda>c. fvalue u c index row_count filt) cs = map Inr xs \<and>
      \<not> is_missing u v0 \<and> (\<forall>x\<in>set xs. \<not> is_missing u x) \<and>
      chain_holds u v0 ops xs \<longrightarrow>
      fvalue u (Compare l ops cs) index row_count filt = Inr (IntV 1)"
  proof (intro allI impI, elim conjE)
    fix v0 xs
    assume l: "fvalue u l index row_count filt = Inr v0"
      and cs: "map (\<lambda>c. fvalue u c index row_count filt) cs = map Inr xs"
      and v0: "\<not> is_missing u v0" and xs: "\<forall>x\<in>set xs. \<not> is_missing u x"
      and ch: "chain_holds u v0 ops xs"
    show "fvalue u (Compare l ops cs) index row_count filt = Inr (IntV 1)"
      using v0 compare_loop_prefix [OF ch xs, of "[]" "[]"]
      by (simp add: Compare_run_def l cs)
  qed
qed

theorem Compare_fvalue_chain_witness:
  "fvalue spec_utils (Compare (Src (column [NaN] DECIMAL CONTINUOUS)) [Lt] [Num (IntV 1)]) 0 1 False
     = Inr (IntV INT_MISSING) \<and>
   fvalue spec_utils
     (Compare (Num (IntV 1)) [Lt, Lt] [Num (IntV 2), Src (column [NaN] DECIMAL CONTINUOUS)]) 0 1 False
     = Inr (IntV INT_MISSING) \<and>
   fvalue spec_utils
     (Compare (Num (IntV 1)) [Lt, Lt, Lt]
        [Num (IntV 2), Num (IntV 0), Src (column [NaN] DECIMAL CONTINUOUS)]) 0 1 False
     = Inr (IntV 0) \<and>
   fvalue spec_utils (Compare (Num (IntV 1)) [Lt, Lt] [Num (IntV 2), Num (IntV 3)]) 0 1 False
     = Inr (IntV 1)"
proof -
  let ?m = "Src (column [NaN] DECIMAL CONTINUOUS)"
  note defs = spec_utils_def column_def INT_MISSING_def Compare_test_def test_unpack_def py_lt_def
  have m0: "fvalue spec_utils (Compare ?m [Lt] [Num (IntV 1)]) 0 1 False = Inr (IntV INT_MISSING)"
    using Compare_fvalue_chain [of spec_utils ?m 0 1 False "[Lt]" "[Num (IntV 1)]",
        THEN conjunct1, rule_format, of NaN]
    by (simp add: defs)
  have m: "fvalue spec_utils (Compare (Num (IntV 1)) [Lt, Lt] [Num (IntV 2), ?m]) 0 1 False
      = Inr (IntV INT_MISSING)"
    using Compare_fvalue_chain [of spec_utils "Num (IntV 1)" 0 1 False "[Lt, Lt]"
        "[Num (IntV 2), ?m]", THEN conjunct2, THEN conjunct1, rule_format,
        of "IntV 1" "[IntV 2]" NaN "[]" "[Lt]" Lt "[]"]
    by (simp add: defs)
  have z: "fvalue spec_utils
      (Compare (Num (IntV 1)) [Lt, Lt, Lt] [Num (IntV 2), Num (IntV 0), ?m]) 0 1 False
      = Inr (IntV 0)"
    using Compare_fvalue_chain [of spec_utils "Num (IntV 1)" 0 1 False "[Lt, Lt, Lt]"
        "[Num (IntV 2), Num (IntV 0), ?m]", THEN conjunct2, THEN conjunct2, THEN conjunct1,
        rule_format, of "IntV 1" "[IntV 2]" "IntV 0" "[Inr NaN]" "[Lt]" Lt "[Lt]"]
    by (simp add: defs)
  have t: "fvalue spec_utils (Compare (Num (IntV 1)) [Lt, Lt] [Num (IntV 2), Num (IntV 3)]) 0 1 False
      = Inr (IntV 1)"
    using Compare_fvalue_chain [of spec_utils "Num (IntV 1)" 0 1 False "[Lt, Lt]"
        "[Num (IntV 2), Num (IntV 3)]", THEN conjunct2, THEN conjunct2, THEN conjunct2,
        rule_format, of "IntV 1" "[IntV 2, IntV 3]"]
    by (simp add: defs)
  from m0 m z t show ?thesis by simp
qed

section \<open>Properties of binary arithmetic\<close>

lemma BinOp_fvalue_values:
  "fvalue u l index row_count filt = Inr a \<Longrightarrow> fvalue u r index row_count filt = Inr b \<Longrightarrow>
   fvalue u (BinOp l op r) index row_count filt = BinOp_apply u (data_type (BinOp l op r)) op a b"
  by simp

text \<open>
  Claim C1. When both operands of a binary node evaluate to values and the sentinel that
  \<^verbatim>\<open>get_missing(int)\<close> gives is itself missing: if one of the operands, converted into
  the domain of the node's data type, is missing, the result is a missing value, for every
  operator, unless the domain is text and the operator is \<^verbatim>\<open>+\<close>. In that case no
  operand is tested and the two converted texts are concatenated.
\<close>

theorem BinOp_missing_operand:
  assumes "fvalue u l index row_count filt = Inr a"
    and "fvalue u r index row_count filt = Inr b"
    and "is_missing u (get_missing u (Some TInt))"
  shows
  "(\<not> (ul_type (data_type (BinOp l op r)) = TStr \<and> op = Add) \<and>
    (is_missing u (convert u a (Some (ul_type (data_type (BinOp l op r))))) \<or>
     is_missing u (convert u b (Some (ul_type (data_type (BinOp l op r)))))) \<longrightarrow>
    (\<exists>v. fvalue u (BinOp l op r) index row_count filt = Inr v \<and> is_missing u v)) \<and>
   (\<forall>s t. ul_type (data_type (BinOp l op r)) = TStr \<and> op = Add \<and>
      convert u a (Some TStr) = StrV s \<and> convert u b (Some TStr) = StrV t \<longrightarrow>
      fvalue u (BinOp l op r) index row_count filt = Inr (StrV (s @ t)))"
proof -
  have fv: "fvalue u (BinOp l op r) index row_count filt
      = BinOp_apply u (data_type (BinOp l op r)) op a b"
    using assms(1,2) by (rule BinOp_fvalue_values)
  show ?thesis
    unfolding fv using assms(3) by (simp add: BinOp_apply_def Let_def)
qed

theorem BinOp_missing_operand_witness:
  "(\<exists>v. fvalue spec_utils
        (BinOp (Src (column [NaN] DECIMAL CONTINUOUS)) Mult (Num (IntV 2))) 0 1 False = Inr v \<and>
      is_missing spec_utils v) \<and>
   fvalue spec_utils
     (BinOp (Str ''ab'') Add (Src (column [IntV INT_MISSING] INTEGER NOMINAL))) 0 1 False
     = Inr (StrV ''ab'')"
proof -
  let ?m = "Src (column [NaN] DECIMAL CONTINUOUS)"
  let ?i = "Src (column [IntV INT_MISSING] INTEGER NOMINAL)"
  have h: "is_missing spec_utils (get_missing spec_utils (Some TInt))"
    by (simp add: spec_utils_def)
  have l1: "fvalue spec_utils ?m 0 1 False = Inr NaN" by (simp add: column_def)
  have r1: "fvalue spec_utils (Num (IntV 2)) 0 1 False = Inr (IntV 2)" by simp
  have l2: "fvalue spec_utils (Str ''ab'') 0 1 False = Inr (StrV ''ab'')" by simp
  have r2: "fvalue spec_utils ?i 0 1 False = Inr (IntV INT_MISSING)" by (simp add: column_def)
  have p1: "\<exists>v. fvalue spec_utils (BinOp ?m Mult (Num (IntV 2))) 0 1 False = Inr v \<and>
      is_missing spec_utils v"
    using BinOp_missing_operand [OF l1 r1 h, of Mult, THEN conjunct1]
    by (simp add: spec_utils_def column_def)
  have p2: "fvalue spec_utils (BinOp (Str ''ab'') Add ?i) 0 1 False = Inr (StrV ''ab'')"
    using BinOp_missing_operand [OF l2 r2 h, of Add, THEN conjunct2, rule_format, of "''ab''" "[]"]
    by (simp add: spec_utils_def column_def)
  from p1 p2 show ?thesis by simp
qed

text \<open>
  Claim C10. Whenever a binary node propagates missingness (a converted operand is
  missing, and the case is not \<^verbatim>\<open>+\<close> in the text domain), the value it returns is
  \<^verbatim>\<open>get_missing(int)\<close>, the sentinel of the integer domain, whatever the domain of
  the node is.
\<close>

theorem BinOp_missing_is_int_sentinel:
  assumes "fvalue u l index row_count filt = Inr a"
    and "fvalue u r index row_count filt = Inr b"
    and "\<not> (ul_type (data_type (BinOp l op r)) = TStr \<and> op = Add)"
    and "is_missing u (convert u a (Some (ul_type (data_type (BinOp l op r))))) \<or>
         is_missing u (convert u b (Some (ul_type (data_type (BinOp l op r)))))"
  shows "fvalue u (BinOp l op r) index row_count filt = Inr (get_missing u (Some TInt))"
proof -
  have fv: "fvalue u (BinOp l op r) index row_count filt
      = BinOp_apply u (data_type (BinOp l op r)) op a b"
    using assms(1,2) by (rule BinOp_fvalue_values)
  show ?thesis
    unfolding fv using assms(3,4) by (auto simp add: BinOp_apply_def Let_def)
qed

theorem BinOp_missing_is_int_sentinel_witness:
  "fvalue spec_utils (BinOp (Src (column [NaN] DECIMAL CONTINUOUS)) Div (Num (DecV 2))) 0 1 False
     = Inr (IntV INT_MISSING) \<and>
   fvalue spec_utils (BinOp (Num (IntV 3)) Sub (Src (column [IntV INT_MISSING] INTEGER ORDINAL)))
     0 1 False = Inr (IntV INT_MISSING)"
proof -
  let ?m = "Src (column [NaN] DECIMAL CONTINUOUS)"
  let ?i = "Src (column [IntV INT_MISSING] INTEGER ORDINAL)"
  have l1: "fvalue spec_utils ?m 0 1 False = Inr NaN" by (simp add: column_def)
  have r1: "fvalue spec_utils (Num (DecV 2)) 0 1 False = Inr (DecV 2)" by simp
  have d1: "\<not> (ul_type (data_type (BinOp ?m Div (Num (DecV 2)))) = TStr \<and> Div = Add)" by simp
  have m1: "is_missing spec_utils
        (convert spec_utils NaN (Some (ul_type (data_type (BinOp ?m Div (Num (DecV 2))))))) \<or>
      is_missing spec_utils
        (convert spec_utils (DecV 2) (Some (ul_type (data_type (BinOp ?m Div (Num (DecV 2)))))))"
    by (simp add: spec_utils_def column_def)
  have l2: "fvalue spec_utils (Num (IntV 3)) 0 1 False = Inr (IntV 3)" by simp
  have r2: "fvalue spec_utils ?i 0 1 False = Inr (IntV INT_MISSING)" by (simp add: column_def)
  have d2: "\<not> (ul_type (data_type (BinOp (Num (IntV 3)) Sub ?i)) = TStr \<and> Sub = Add)" by simp
  have m2: "is_missing spec_utils
        (convert spec_utils (IntV 3) (Some (ul_type (data_type (BinOp (Num (IntV 3)) Sub ?i))))) \<or>
      is_missing spec_utils
        (convert spec_utils (IntV INT_MISSING)
           (Some (ul_type (data_type (BinOp (Num (IntV 3)) Sub ?i)))))"
    by (simp add: spec_utils_def column_def)
  show ?thesis
    using BinOp_missing_is_int_sentinel [OF l1 r1 d1 m1]
      BinOp_missing_is_int_sentinel [OF l2 r2 d2 m2]
    by (simp add: spec_utils_def)
qed

section \<open>Operator kinds outside the supported set\<close>

text \<open>
  Claim C9, as stated, fails for the binary node: \<^verbatim>\<open>7 // 2\<close> evaluates to a missing
  value and raises nothing.
\<close>

theorem unsupported_operator_counterexample:
  "fvalue spec_utils (BinOp (Num (IntV 7)) FloorDiv (Num (IntV 2))) 0 1 False
     = Inr (IntV INT_MISSING) \<and>
   is_missing spec_utils (IntV INT_MISSING)"
  by (simp add: spec_utils_def BinOp_apply_def INT_MISSING_def)

text \<open>
  Claim C9, amended. A unary node whose operator is none of negate, plus, not and invert
  raises (\<^verbatim>\<open>RuntimeError\<close> once its operand has been evaluated), and a boolean node
  whose operator is neither AND nor OR raises \<^verbatim>\<open>RuntimeError\<close> before any operand is
  evaluated. A binary node whose operator is none of
  \<^verbatim>\<open>+ - * / % ** ^\<close> raises nothing of its own: once both operands have been
  evaluated it returns a missing value, \<^verbatim>\<open>get_missing(int)\<close> when a converted operand
  is missing and \<^verbatim>\<open>get_missing()\<close> otherwise.
\<close>

theorem unsupported_operator:
  "((\<exists>e. fvalue u (UnaryOp UnaryOther operand) index row_count filt = Inl e) \<and>
    (\<forall>v. fvalue u operand index row_count filt = Inr v \<longrightarrow>
       fvalue u (UnaryOp UnaryOther operand) index row_count filt = Inl RuntimeError)) \<and>
   (BoolOp_run u BoolOther (map (\<lambda>v. fvalue u v index row_count filt) vs) = (0, Inl RuntimeError) \<and>
    fvalue u (BoolOp BoolOther vs) index row_count filt = Inl RuntimeError) \<and>
   (\<forall>a b. op \<notin> {Add, Sub, Mult, Div, Mod, Pow, BitXor} \<and>
      fvalue u l index row_count filt = Inr a \<and> fvalue u r index row_count filt = Inr b \<longrightarrow>
      fvalue u (BinOp l op r) index row_count filt =
        Inr (if is_missing u (convert u a (Some (ul_type (data_type (BinOp l op r))))) \<or>
                is_missing u (convert u b (Some (ul_type (data_type (BinOp l op r)))))
             then get_missing u (Some TInt) else get_missing u None))"
proof (intro conjI)
  show "\<exists>e. fvalue u (UnaryOp UnaryOther operand) index row_count filt = Inl e"
    by (cases "fvalue u operand index row_count filt") simp_all
next
  show "\<forall>v. fvalue u operand index row_count filt = Inr v \<longrightarrow>
       fvalue u (UnaryOp UnaryOther operand) index row_count filt = Inl RuntimeError"
    by simp
next
  show "BoolOp_run u BoolOther (map (\<lambda>v. fvalue u v index row_count filt) vs) = (0, Inl RuntimeError)"
    by simp
next
  show "fvalue u (BoolOp BoolOther vs) index row_count filt = Inl RuntimeError"
    by simp
next
  show "\<forall>a b. op \<notin> {Add, Sub, Mult, Div, Mod, Pow, BitXor} \<and>
      fvalue u l index row_count filt = Inr a \<and> fvalue u r index row_count filt = Inr b \<longrightarrow>
      fvalue u (BinOp l op r) index row_count filt =
        Inr (if is_missing u (convert u a (Some (ul_type (data_type (BinOp l op r))))) \<or>
                is_missing u (convert u b (Some (ul_type (data_type (BinOp l op r)))))
             then get_missing u (Some TInt) else get_missing u None)"
  proof (intro allI impI, elim conjE)
    fix a b
    assume op: "op \<notin> {Add, Sub, Mult, Div, Mod, Pow, BitXor}"
      and l: "fvalue u l index row_count filt = Inr a"
      and r: "fvalue u r index row_count filt = Inr b"
    have ar: "BinOp_arith u op x y = Inr (get_missing u None)" for x y
      using op by (cases op) simp_all
    have "op \<noteq> Add" using op by simp
    then show "fvalue u (BinOp l op r) index row_count filt =
        Inr (if is_missing u (convert u a (Some (ul_type (data_type (BinOp l op r))))) \<or>
                is_missing u (convert u b (Some (ul_type (data_type (BinOp l op r)))))
             then get_missing u (Some TInt) else get_missing u None)"
      unfolding BinOp_fvalue_values [OF l r]
      by (simp add: BinOp_apply_def Let_def ar)
  qed
qed

theorem unsupported_operator_witness:
  "fvalue spec_utils (UnaryOp UnaryOther (Num (IntV 1))) 0 1 False = Inl RuntimeError \<and>
   fvalue spec_utils (BoolOp BoolOther [Num (IntV 1)]) 0 1 False = Inl RuntimeError \<and>
   fvalue spec_utils (BinOp (Num (IntV 6)) BitAnd (Num (IntV 3))) 0 1 False
     = Inr (IntV INT_MISSING)"
proof -
  have u1: "fvalue spec_utils (UnaryOp UnaryOther (Num (IntV 1))) 0 1 False = Inl RuntimeError"
    using unsupported_operator [of spec_utils "Num (IntV 1)" 0 1 False,
        THEN conjunct1, THEN conjunct2, rule_format, of "IntV 1"]
    by simp
  have b1: "fvalue spec_utils (BoolOp BoolOther [Num (IntV 1)]) 0 1 False = Inl RuntimeError"
    using unsupported_operator [of spec_utils _ 0 1 False "[Num (IntV 1)]",
        THEN conjunct2, THEN conjunct1, THEN conjunct2]
    by simp
  have x1: "fvalue spec_utils (BinOp (Num (IntV 6)) BitAnd (Num (IntV 3))) 0 1 False
      = Inr (IntV INT_MISSING)"
    using unsupported_operator [of spec_utils _ 0 1 False _ BitAnd "Num (IntV 6)" "Num (IntV 3)",
        THEN conjunct2, THEN conjunct2, rule_format, of "IntV 6" "IntV 3"]
    by (simp add: spec_utils_def INT_MISSING_def)
  from u1 b1 x1 show ?thesis by simp
qed

section \<open>The type of a power\<close>

lemma BinOp_Pow_types:
  "data_type (BinOp l Pow r) = DECIMAL \<and> measure_type (BinOp l Pow r) = CONTINUOUS"
  by simp

text \<open>
  Claim C5 holds for the power operator (\<open>BinOp_Pow_types\<close>) and not for the
  bitwise-xor symbol, which \<^verbatim>\<open>fvalue\<close> evaluates as a power while \<^verbatim>\<open>data_type\<close>
  and \<^verbatim>\<open>measure_type\<close> test for \<^verbatim>\<open>ast.Pow\<close> alone: \<^verbatim>\<open>2 ^ 3\<close> on integer
  literals has data type integer and measure type ordinal, and \<^verbatim>\<open>2 ^ -1\<close> evaluates
  to the decimal 0.5 in a node whose data type is integer.
\<close>

theorem BinOp_BitXor_types:
  "data_type (BinOp (Num (IntV 2)) BitXor (Num (IntV 3))) = INTEGER \<and>
   measure_type (BinOp (Num (IntV 2)) BitXor (Num (IntV 3))) = ORDINAL \<and>
   fvalue spec_utils (BinOp (Num (IntV 2)) BitXor (Num (IntV 3))) 0 1 False = Inr (IntV 8) \<and>
   fvalue spec_utils (BinOp (Num (IntV 2)) BitXor (Num (IntV (- 1)))) 0 1 False = Inr (DecV (1 / 2)) \<and>
   data_type (BinOp (Num (IntV 2)) BitXor (Num (IntV (- 1)))) = INTEGER \<and>
   data_type (BinOp (Num (IntV 2)) Pow (Num (IntV 3))) = DECIMAL \<and>
   measure_type (BinOp (Num (IntV 2)) Pow (Num (IntV 3))) = CONTINUOUS"
  by (simp add: spec_utils_def BinOp_apply_def INT_MISSING_def)

section \<open>Properties of the function call\<close>

lemma dt_loop_eq:
  "dt_loop ts dt =
     (if Some TEXT \<in> set ts then TEXT else if Some DECIMAL \<in> set ts then DECIMAL else dt)"
  by (induction ts arbitrary: dt) auto

lemma deriving_d_types:
  "(Some t \<in> set (map (\<lambda>arg_i. if arg_i < length args
        then Some (arg_data_type (args ! arg_i)) else None) rs))
   = (\<exists>a\<in>set (deriving_args rs args). arg_data_type a = t)"
  by (auto simp add: deriving_args_def image_iff)

lemma deriving_m_types:
  "(Some t \<in> set (map (\<lambda>arg_i. if arg_i < length args
        then Some (arg_measure_type (args ! arg_i)) else None) rs))
   = (\<exists>a\<in>set (deriving_args rs args). arg_measure_type a = t)"
  by (auto simp add: deriving_args_def image_iff)

lemma determine_d_m_types_spec:
  "args \<noteq> [] \<Longrightarrow> returns m \<noteq> [] \<Longrightarrow>
   determine_d_m_types m args =
     (spec_d_type (deriving_args (returns m) args), spec_m_type (deriving_args (returns m) args))"
  unfolding determine_d_m_types_def Let_def dt_loop_eq deriving_d_types deriving_m_types
  by (simp add: spec_d_type_def spec_m_type_def)

text \<open>
  Claim C8. For a call with at least one argument and a non-empty \<^verbatim>\<open>meta.returns\<close>,
  whose type memos are still empty: the data type read is text if a type-deriving argument
  is text, whatever the order of the arguments and even when another is decimal; else
  decimal if one is decimal; else integer. The measure type read is continuous for a
  decimal result, else identifier if a deriving argument is an identifier, else ordinal if
  one is ordinal, else nominal. Both reads leave the same object behind, and every later
  read of that object gives the same two types without looking at the arguments again.
\<close>

theorem Call_type_inference:
  assumes "args \<noteq> []"
    and "returns (f_meta (c_function c)) \<noteq> []"
    and "c_d_type c = None" and "c_m_type c = None"
  shows "\<exists>c'.
    Call_data_type args c
      = (Some (spec_d_type (deriving_args (returns (f_meta (c_function c))) args)), c') \<and>
    Call_measure_type args c
      = (Some (spec_m_type (deriving_args (returns (f_meta (c_function c))) args)), c') \<and>
    (\<forall>args'.
       Call_data_type args' c'
         = (Some (spec_d_type (deriving_args (returns (f_meta (c_function c))) args)), c') \<and>
       Call_measure_type args' c'
         = (Some (spec_m_type (deriving_args (returns (f_meta (c_function c))) args)), c'))"
  using assms
  by (simp add: Call_data_type_def Call_measure_type_def Call_determine_d_m_types_def
      determine_d_m_types_spec)

theorem Call_type_inference_witness:
  "fst (Call_data_type
      [column_arg [IntV 1] INTEGER NOMINAL [],
       column_arg [DecV 2] DECIMAL CONTINUOUS [],
       column_arg [StrV ''a''] TEXT ORDINAL [(0, ''a'')]] (fresh_call IF_fn)) = Some TEXT \<and>
   fst (Call_measure_type
      [column_arg [IntV 1] INTEGER NOMINAL [],
       column_arg [DecV 2] DECIMAL CONTINUOUS [],
       column_arg [StrV ''a''] TEXT ORDINAL [(0, ''a'')]] (fresh_call IF_fn)) = Some ORDINAL"
proof -
  let ?args = "[column_arg [IntV 1] INTEGER NOMINAL [],
       column_arg [DecV 2] DECIMAL CONTINUOUS [],
       column_arg [StrV ''a''] TEXT ORDINAL [(0, ''a'')]]"
  have a: "?args \<noteq> []" by simp
  have r: "returns (f_meta (c_function (fresh_call IF_fn))) \<noteq> []"
    by (simp add: fresh_call_def IF_fn_def)
  have d: "c_d_type (fresh_call IF_fn) = None" by (simp add: fresh_call_def)
  have m: "c_m_type (fresh_call IF_fn) = None" by (simp add: fresh_call_def)
  have s1: "spec_d_type (deriving_args (returns (f_meta (c_function (fresh_call IF_fn)))) ?args) = TEXT"
    by (simp add: fresh_call_def IF_fn_def deriving_args_def spec_d_type_def column_arg_def)
  have s2: "spec_m_type (deriving_args (returns (f_meta (c_function (fresh_call IF_fn)))) ?args) = ORDINAL"
    by (simp add: fresh_call_def IF_fn_def deriving_args_def spec_d_type_def spec_m_type_def column_arg_def)
  from Call_type_inference [OF a r d m] show ?thesis
    unfolding s1 s2 by auto
qed


section \<open>The evaluation of a call as a function\<close>

lemma exec_bind:
  "exec f (bind_prog p g) =
     (case exec f p of (x, l1) \<Rightarrow> (case exec f (g x) of (y, l2) \<Rightarrow> (y, l1 @ l2)))"
  by (induction p) (auto split: prod.splits)

lemma Call_fvalue_unfold:
  "Call_fvalue u args c index row_count filt =
     (if f_name (c_function c) = ''OFFSET'' then (Call_offset u args index row_count, c, 0)
      else if is_column_wise (f_meta (c_function c)) then
        (case c_cached_value c of
           Some value \<Rightarrow> (Inr value, c, 0)
         | None \<Rightarrow>
             (case last_arg_type (c_arg_types c) args of
                Inl e \<Rightarrow> (Inl e, c, 0)
              | Inr arg_type \<Rightarrow>
                  (case f_call (c_function c) (column_call_args u arg_type args row_count filt) of
                     Inl e \<Rightarrow> (Inl e, c, 1)
                   | Inr value \<Rightarrow> (Inr value, c\<lparr>c_cached_value := Some value\<rparr>, 1))))
      else
        (case sequence (map (\<lambda>arg. arg_fvalue arg index row_count False) args) of
           Inl e \<Rightarrow> (Inl e, c, 0)
         | Inr vs \<Rightarrow>
             (case convert_args u (c_arg_types c) 0 vs of
                Inl e \<Rightarrow> (Inl e, c, 0)
              | Inr ws \<Rightarrow>
                  (f_call (c_function c) (Scalar (IntV (int index)) # map Scalar ws), c, 1))))"
  by (simp add: Call_fvalue_def Call_fvalue_prog_def Call_column_wise_prog_def
      Call_row_wise_prog_def split: option.splits sum.splits)

section \<open>Properties of the memo and of invalidation\<close>

lemma exec_column_wise_cached:
  "c_cached_value c = Some v \<Longrightarrow>
   exec f (Call_column_wise_prog u args c row_count filt) = ((Inr v, c), [])"
  by (simp add: Call_column_wise_prog_def)

lemma exec_column_wise_empty:
  "c_cached_value c = None \<Longrightarrow> last_arg_type (c_arg_types c) args = Inr ty \<Longrightarrow>
   exec f (Call_column_wise_prog u args c row_count filt) =
     ((case f (column_call_args u ty args row_count filt) of
         Inl e \<Rightarrow> (Inl e, c)
       | Inr v \<Rightarrow> (Inr v, c\<lparr>c_cached_value := Some v\<rparr>)),
      [column_call_args u ty args row_count filt])"
  by (simp add: Call_column_wise_prog_def split: sum.splits)

lemma exec_run_cached:
  "is_column_wise (f_meta (c_function c)) \<Longrightarrow> f_name (c_function c) \<noteq> ''OFFSET'' \<Longrightarrow>
   c_cached_value c = Some v \<Longrightarrow>
   exec f (Call_run_prog u args c qs) = ((replicate (length qs) (Inr v), c), [])"
  by (induction qs)
     (auto simp add: exec_bind Call_fvalue_prog_def exec_column_wise_cached)

lemma clear_memo_idem: "clear_memo (clear_memo nd) = clear_memo nd"
  by (cases "node_obj nd") (simp_all add: clear_memo_def)

lemma clear_memo_parents: "node_parents (clear_memo nd) = node_parents nd"
  by (cases "node_obj nd") (simp_all add: clear_memo_def)

lemma clear_set_clear_set: "clear_set (clear_set h S) T = clear_set h (S \<union> T)"
  by (auto simp add: clear_set_def fun_eq_iff option.map_comp comp_def clear_memo_idem
      intro!: heap.equality)

lemma clear_set_empty: "clear_set h {} = h"
  by (simp add: clear_set_def)

lemma clear_one:
  "h_nodes h n = Some nd \<Longrightarrow> h\<lparr>h_nodes := (h_nodes h)(n \<mapsto> clear_memo nd)\<rparr> = clear_set h {n}"
  by (auto simp add: clear_set_def fun_eq_iff intro!: heap.equality)

lemma parents_of_clear_set: "parents_of (clear_set h S) = parents_of h"
  by (auto simp add: parents_of_def clear_set_def fun_eq_iff option.map_comp comp_def
      clear_memo_parents)

lemma set_needs_recalc_char:
  "(set_needs_recalc k h n = Some (Inr (h', t)) \<longrightarrow>
      h' = clear_set h (set t) \<and> notifies (parents_of h) n t)"
  "(notify_parents k h ps = Some (Inr (h', t)) \<longrightarrow>
      h' = clear_set h (set t) \<and>
      (\<exists>ts. list_all2 (notifies (parents_of h)) ps ts \<and> t = concat ts))"
proof (induction k h n and k h ps arbitrary: h' t and h' t rule: set_needs_recalc_notify_parents.induct)
  case (1 h n)
  then show ?case by simp
next
  case (2 k h n)
  show ?case
  proof (intro impI)
    assume a: "set_needs_recalc (Suc k) h n = Some (Inr (h', t))"
    then obtain nd where nd: "h_nodes h n = Some nd"
      by (cases "h_nodes h n") auto
    let ?h0 = "h\<lparr>h_nodes := (h_nodes h)(n \<mapsto> clear_memo nd)\<rparr>"
    have h0: "?h0 = clear_set h {n}" using nd by (rule clear_one)
    from a nd obtain t0 where t0: "notify_parents k ?h0 (node_parents nd) = Some (Inr (h', t0))"
      and t: "t = n # t0"
      by (auto split: option.splits sum.splits)
    from "2.IH" [OF nd, of h' t0] t0
    obtain ts where h': "h' = clear_set ?h0 (set t0)"
      and ts: "list_all2 (notifies (parents_of ?h0)) (node_parents nd) ts" and c: "t0 = concat ts"
      by auto
    have P: "parents_of h n = Some (node_parents nd)" using nd by (simp add: parents_of_def)
    from ts have "list_all2 (notifies (parents_of h)) (node_parents nd) ts"
      by (simp add: h0 parents_of_clear_set)
    with P have "notifies (parents_of h) n (n # concat ts)" by (rule notifies.intros)
    moreover have "h' = clear_set h (set t)"
      using h' t by (simp add: h0 clear_set_clear_set)
    ultimately show "h' = clear_set h (set t) \<and> notifies (parents_of h) n t"
      using t c by simp
  qed
next
  case (3 k h)
  then show ?case by (simp add: clear_set_empty)
next
  case (4 k h p ps)
  show ?case
  proof (intro impI)
    assume a: "notify_parents k h (p # ps) = Some (Inr (h', t))"
    then obtain h1 t1 t2 where s1: "set_needs_recalc k h p = Some (Inr (h1, t1))"
      and s2: "notify_parents k h1 ps = Some (Inr (h', t2))" and t: "t = t1 @ t2"
      by (auto split: option.splits sum.splits)
    from "4.IH"(1) [of h1 t1] s1 have h1: "h1 = clear_set h (set t1)"
      and n1: "notifies (parents_of h) p t1" by auto
    from "4.IH"(2) [OF s1 refl refl, of h' t2] s2
    obtain ts where h': "h' = clear_set h1 (set t2)"
      and ts: "list_all2 (notifies (parents_of h1)) ps ts" and c: "t2 = concat ts" by auto
    from ts have "list_all2 (notifies (parents_of h)) ps ts"
      by (simp add: h1 parents_of_clear_set)
    with n1 have "list_all2 (notifies (parents_of h)) (p # ps) (t1 # ts)" by simp
    moreover have "t = concat (t1 # ts)" using t c by simp
    moreover have "h' = clear_set h (set t)" using h' h1 t by (simp add: clear_set_clear_set)
    ultimately show "h' = clear_set h (set t) \<and>
      (\<exists>ts. list_all2 (notifies (parents_of h)) (p # ps) ts \<and> t = concat ts)"
      by blast
  qed
qed

lemma notifies_head: "notifies P n t \<Longrightarrow> n \<in> set t"
  by (erule notifies.cases) simp

lemma parent_rel_iff:
  "((n, p) \<in> parent_rel h) = (\<exists>ps. parents_of h n = Some ps \<and> p \<in> set ps)"
  by (auto simp add: parent_rel_def parents_of_def)

lemma notifies_ancestors:
  "notifies (parents_of h) n t \<Longrightarrow> (n, m) \<in> (parent_rel h)\<^sup>* \<Longrightarrow> m \<in> set t"
proof (induction arbitrary: m rule: notifies.induct)
  case (1 n ps ts)
  from "1.prems" show ?case
  proof (cases rule: converse_rtranclE)
    case base
    then show ?thesis by simp
  next
    case (step p)
    from step(1) "1.hyps"(1) have "p \<in> set ps" by (simp add: parent_rel_iff)
    then obtain i where i: "i < length ps" and p: "ps ! i = p" by (auto simp add: in_set_conv_nth)
    from "1.IH" i have "(ps ! i, m) \<in> (parent_rel h)\<^sup>* \<longrightarrow> m \<in> set (ts ! i)" and "i < length ts"
      by (auto simp add: list_all2_conv_all_nth)
    with p step(2) have "m \<in> set (ts ! i)" and "ts ! i \<in> set ts" by auto
    then show ?thesis by auto
  qed
qed

lemma notifies_only_ancestors:
  "notifies (parents_of h) n t \<Longrightarrow> m \<in> set t \<Longrightarrow> (n, m) \<in> (parent_rel h)\<^sup>*"
proof (induction arbitrary: m rule: notifies.induct)
  case (1 n ps ts)
  show ?case
  proof (cases "m = n")
    case True
    then show ?thesis by simp
  next
    case False
    with "1.prems" obtain x where "x \<in> set ts" and mx: "m \<in> set x" by auto
    then obtain i where i: "i < length ts" and "ts ! i = x" by (auto simp add: in_set_conv_nth)
    with mx have m: "m \<in> set (ts ! i)" by simp
    from "1.IH" i m have r: "(ps ! i, m) \<in> (parent_rel h)\<^sup>*" and il: "i < length ps"
      by (auto simp add: list_all2_conv_all_nth)
    from il "1.hyps"(1) have "(n, ps ! i) \<in> parent_rel h"
      by (auto simp add: parent_rel_iff)
    then show ?thesis using r by (rule converse_rtrancl_into_rtrancl)
  qed
qed

lemma wf_parents_clear_set: "wf_parents h rank \<Longrightarrow> wf_parents (clear_set h S) rank"
  unfolding wf_parents_def clear_set_def
  by (auto simp add: clear_memo_parents split: if_splits)

lemma clear_set_dom: "(h_nodes (clear_set h S) p \<noteq> None) = (h_nodes h p \<noteq> None)"
  by (simp add: clear_set_def)

lemma set_needs_recalc_terminates:
  "wf_parents h rank \<Longrightarrow> h_nodes h n \<noteq> None \<Longrightarrow> rank n < k \<Longrightarrow>
     \<exists>h' t. set_needs_recalc k h n = Some (Inr (h', t))"
  "wf_parents h rank \<Longrightarrow> \<forall>p\<in>set ps. h_nodes h p \<noteq> None \<and> rank p < k \<Longrightarrow>
     \<exists>h' t. notify_parents k h ps = Some (Inr (h', t))"
proof (induction k h n and k h ps rule: set_needs_recalc_notify_parents.induct)
  case (1 h n)
  then show ?case by simp
next
  case (2 k h n)
  from "2.prems"(2) obtain nd where nd: "h_nodes h n = Some nd" by auto
  have h0: "h\<lparr>h_nodes := (h_nodes h)(n \<mapsto> clear_memo nd)\<rparr> = clear_set h {n}"
    using nd by (rule clear_one)
  have wf0: "wf_parents (clear_set h {n}) rank"
    using "2.prems"(1) by (rule wf_parents_clear_set)
  have ps: "\<forall>p\<in>set (node_parents nd). h_nodes (clear_set h {n}) p \<noteq> None \<and> rank p < k"
  proof
    fix p assume p: "p \<in> set (node_parents nd)"
    from "2.prems"(1) nd p have "h_nodes h p \<noteq> None" and "rank p < rank n"
      unfolding wf_parents_def by blast+
    moreover have "h_nodes (clear_set h {n}) p \<noteq> None = (h_nodes h p \<noteq> None)"
      by (rule clear_set_dom)
    ultimately show "h_nodes (clear_set h {n}) p \<noteq> None \<and> rank p < k"
      using "2.prems"(3) by linarith
  qed
  from "2.IH" [OF nd] wf0 ps h0
  obtain h' t where "notify_parents k (clear_set h {n}) (node_parents nd) = Some (Inr (h', t))"
    by auto
  then show ?case using nd h0 by simp
next
  case (3 k h)
  then show ?case by simp
next
  case (4 k h p ps)
  from "4.IH"(1) "4.prems" obtain h1 t1 where s1: "set_needs_recalc k h p = Some (Inr (h1, t1))"
    by auto
  from set_needs_recalc_char(1) [of k h p h1 t1] s1 have h1: "h1 = clear_set h (set t1)" by simp
  have wf1: "wf_parents h1 rank" unfolding h1 using "4.prems"(1) by (rule wf_parents_clear_set)
  have ps: "\<forall>q\<in>set ps. h_nodes h1 q \<noteq> None \<and> rank q < k"
  proof
    fix q assume "q \<in> set ps"
    with "4.prems"(2) have "h_nodes h q \<noteq> None" and "rank q < k" by auto
    moreover have "h_nodes (clear_set h (set t1)) q \<noteq> None = (h_nodes h q \<noteq> None)"
      by (rule clear_set_dom)
    ultimately show "h_nodes h1 q \<noteq> None \<and> rank q < k" unfolding h1 by blast
  qed
  from "4.IH"(2) [OF s1 refl refl wf1 ps]
  obtain h2 t2 where "notify_parents k h1 ps = Some (Inr (h2, t2))" by auto
  with s1 show ?case by simp
qed


text \<open>
  Claim C2. For a whole-column call that is not \<^verbatim>\<open>OFFSET\<close>, run against the registry
  function of the node; the list that \<open>exec\<close> gives holds the argument lists of the
  applications of that function, one entry for each.
  \<^item> With a filled memo, any run of evaluations, at any rows, row counts and filters,
    returns the memoized value each time, and the function is never applied.
  \<^item> With an empty memo, when the function returns a value for the columns of the first
    evaluation, any run of evaluations returns that value each time, leaves it in the
    memo, and the function is applied exactly once, to those columns.
  \<^item> With an empty memo, when the function raises, the evaluation raises the same
    error after one application and the memo stays empty; when reading the declared type
    raises, the function is not applied.
  \<^item> \<^verbatim>\<open>needs_recalc\<close> is true exactly when the memo is empty.
  \<^item> \<^verbatim>\<open>set_needs_recalc\<close> on the node visits the nodes as the spec describes the
    broadcast (the node, then the notification of each parent in turn, each of which goes
    on to its own parents); the nodes visited are exactly the node and its ancestors; the
    store afterwards is the store before with the memo of every visited node cleared, and
    nothing else changed; the node itself is left with an empty memo.
  \<^item> The evaluation that follows an invalidation applies the function again.
  \<^item> In a store whose parent references lead to nodes and never back, the notification
    ends.
\<close>

theorem Call_column_wise_memo:
  assumes "is_column_wise (f_meta (c_function c))" and "f_name (c_function c) \<noteq> ''OFFSET''"
  shows
  "(\<forall>v qs. c_cached_value c = Some v \<longrightarrow>
      exec (f_call (c_function c)) (Call_run_prog u args c qs)
        = ((replicate (length qs) (Inr v), c), [])) \<and>
   (\<forall>ty v index row_count filt qs.
      c_cached_value c = None \<and> last_arg_type (c_arg_types c) args = Inr ty \<and>
      f_call (c_function c) (column_call_args u ty args row_count filt) = Inr v \<longrightarrow>
      exec (f_call (c_function c)) (Call_run_prog u args c ((index, row_count, filt) # qs))
        = ((replicate (Suc (length qs)) (Inr v), c\<lparr>c_cached_value := Some v\<rparr>),
           [column_call_args u ty args row_count filt])) \<and>
   (\<forall>ty e index row_count filt.
      c_cached_value c = None \<and> last_arg_type (c_arg_types c) args = Inr ty \<and>
      f_call (c_function c) (column_call_args u ty args row_count filt) = Inl e \<longrightarrow>
      exec (f_call (c_function c)) (Call_fvalue_prog u args c index row_count filt)
        = ((Inl e, c), [column_call_args u ty args row_count filt])) \<and>
   (\<forall>e index row_count filt.
      c_cached_value c = None \<and> last_arg_type (c_arg_types c) args = Inl e \<longrightarrow>
      exec (f_call (c_function c)) (Call_fvalue_prog u args c index row_count filt)
        = ((Inl e, c), [])) \<and>
   Call_needs_recalc c = (c_cached_value c = None) \<and>
   (\<forall>k h n nd a h' t.
      h_nodes h n = Some nd \<and> node_obj nd = HCall c a \<and>
      set_needs_recalc k h n = Some (Inr (h', t)) \<longrightarrow>
      notifies (parents_of h) n t \<and>
      set t = {m. (n, m) \<in> (parent_rel h)\<^sup>*} \<and>
      h' = clear_set h (set t) \<and>
      h_nodes h' n = Some (nd\<lparr>node_obj := HCall (c\<lparr>c_cached_value := None\<rparr>) a\<rparr>) \<and>
      Call_needs_recalc (c\<lparr>c_cached_value := None\<rparr>)) \<and>
   (\<forall>ty v index row_count filt.
      last_arg_type (c_arg_types c) args = Inr ty \<and>
      f_call (c_function c) (column_call_args u ty args row_count filt) = Inr v \<longrightarrow>
      exec (f_call (c_function c))
          (Call_fvalue_prog u args (c\<lparr>c_cached_value := None\<rparr>) index row_count filt)
        = ((Inr v, c\<lparr>c_cached_value := Some v\<rparr>), [column_call_args u ty args row_count filt])) \<and>
   (\<forall>h n nd a rank.
      h_nodes h n = Some nd \<and> node_obj nd = HCall c a \<and> wf_parents h rank \<longrightarrow>
      (\<exists>h' t. set_needs_recalc (Suc (rank n)) h n = Some (Inr (h', t))))"
proof (intro conjI)
  have prog: "Call_fvalue_prog u args d index row_count filt = Call_column_wise_prog u args d row_count filt"
    if "c_function d = c_function c" for d index row_count filt
    using assms that by (simp add: Call_fvalue_prog_def)
  show "\<forall>v qs. c_cached_value c = Some v \<longrightarrow>
      exec (f_call (c_function c)) (Call_run_prog u args c qs)
        = ((replicate (length qs) (Inr v), c), [])"
    using assms by (simp add: exec_run_cached)
  show "\<forall>ty v index row_count filt qs.
      c_cached_value c = None \<and> last_arg_type (c_arg_types c) args = Inr ty \<and>
      f_call (c_function c) (column_call_args u ty args row_count filt) = Inr v \<longrightarrow>
      exec (f_call (c_function c)) (Call_run_prog u args c ((index, row_count, filt) # qs))
        = ((replicate (Suc (length qs)) (Inr v), c\<lparr>c_cached_value := Some v\<rparr>),
           [column_call_args u ty args row_count filt])"
  proof (intro allI impI, elim conjE)
    fix ty v index row_count filt qs
    assume n: "c_cached_value c = None" and ty: "last_arg_type (c_arg_types c) args = Inr ty"
      and v: "f_call (c_function c) (column_call_args u ty args row_count filt) = Inr v"
    have first: "exec (f_call (c_function c)) (Call_fvalue_prog u args c index row_count filt)
        = ((Inr v, c\<lparr>c_cached_value := Some v\<rparr>), [column_call_args u ty args row_count filt])"
      by (simp add: prog exec_column_wise_empty [OF n ty] v)
    have rest: "exec (f_call (c_function c)) (Call_run_prog u args (c\<lparr>c_cached_value := Some v\<rparr>) qs)
        = ((replicate (length qs) (Inr v), c\<lparr>c_cached_value := Some v\<rparr>), [])"
      using assms by (intro exec_run_cached) simp_all
    show "exec (f_call (c_function c)) (Call_run_prog u args c ((index, row_count, filt) # qs))
        = ((replicate (Suc (length qs)) (Inr v), c\<lparr>c_cached_value := Some v\<rparr>),
           [column_call_args u ty args row_count filt])"
      by (simp add: exec_bind first rest)
  qed
  show "\<forall>ty e index row_count filt.
      c_cached_value c = None \<and> last_arg_type (c_arg_types c) args = Inr ty \<and>
      f_call (c_function c) (column_call_args u ty args row_count filt) = Inl e \<longrightarrow>
      exec (f_call (c_function c)) (Call_fvalue_prog u args c index row_count filt)
        = ((Inl e, c), [column_call_args u ty args row_count filt])"
    by (simp add: prog exec_column_wise_empty)
  show "\<forall>e index row_count filt.
      c_cached_value c = None \<and> last_arg_type (c_arg_types c) args = Inl e \<longrightarrow>
      exec (f_call (c_function c)) (Call_fvalue_prog u args c index row_count filt)
        = ((Inl e, c), [])"
    by (simp add: prog Call_column_wise_prog_def)
  show "Call_needs_recalc c = (c_cached_value c = None)"
    by (simp add: Call_needs_recalc_def)
  show "\<forall>k h n nd a h' t.
      h_nodes h n = Some nd \<and> node_obj nd = HCall c a \<and>
      set_needs_recalc k h n = Some (Inr (h', t)) \<longrightarrow>
      notifies (parents_of h) n t \<and>
      set t = {m. (n, m) \<in> (parent_rel h)\<^sup>*} \<and>
      h' = clear_set h (set t) \<and>
      h_nodes h' n = Some (nd\<lparr>node_obj := HCall (c\<lparr>c_cached_value := None\<rparr>) a\<rparr>) \<and>
      Call_needs_recalc (c\<lparr>c_cached_value := None\<rparr>)"
  proof (intro allI impI, elim conjE)
    fix k h n nd a h' t
    assume nd: "h_nodes h n = Some nd" and obj: "node_obj nd = HCall c a"
      and s: "set_needs_recalc k h n = Some (Inr (h', t))"
    from set_needs_recalc_char(1) [of k h n h' t] s
    have h': "h' = clear_set h (set t)" and nt: "notifies (parents_of h) n t" by auto
    have anc: "set t = {m. (n, m) \<in> (parent_rel h)\<^sup>*}"
      using notifies_ancestors [OF nt] notifies_only_ancestors [OF nt] by blast
    have "h_nodes h' n = Some (clear_memo nd)"
      unfolding h' using notifies_head [OF nt] nd by (simp add: clear_set_def)
    moreover have "clear_memo nd = nd\<lparr>node_obj := HCall (c\<lparr>c_cached_value := None\<rparr>) a\<rparr>"
      using obj by (simp add: clear_memo_def)
    ultimately show "notifies (parents_of h) n t \<and>
      set t = {m. (n, m) \<in> (parent_rel h)\<^sup>*} \<and>
      h' = clear_set h (set t) \<and>
      h_nodes h' n = Some (nd\<lparr>node_obj := HCall (c\<lparr>c_cached_value := None\<rparr>) a\<rparr>) \<and>
      Call_needs_recalc (c\<lparr>c_cached_value := None\<rparr>)"
      using nt anc h' by (simp add: Call_needs_recalc_def)
  qed
  show "\<forall>ty v index row_count filt.
      last_arg_type (c_arg_types c) args = Inr ty \<and>
      f_call (c_function c) (column_call_args u ty args row_count filt) = Inr v \<longrightarrow>
      exec (f_call (c_function c))
          (Call_fvalue_prog u args (c\<lparr>c_cached_value := None\<rparr>) index row_count filt)
        = ((Inr v, c\<lparr>c_cached_value := Some v\<rparr>), [column_call_args u ty args row_count filt])"
  proof (intro allI impI, elim conjE)
    fix ty v index row_count filt
    assume ty: "last_arg_type (c_arg_types c) args = Inr ty"
      and v: "f_call (c_function c) (column_call_args u ty args row_count filt) = Inr v"
    have "exec (f_call (c_function c))
        (Call_column_wise_prog u args (c\<lparr>c_cached_value := None\<rparr>) row_count filt)
        = ((Inr v, c\<lparr>c_cached_value := Some v\<rparr>), [column_call_args u ty args row_count filt])"
      using exec_column_wise_empty [of "c\<lparr>c_cached_value := None\<rparr>" args ty
          "f_call (c_function c)" u row_count filt] ty v
      by simp
    then show "exec (f_call (c_function c))
          (Call_fvalue_prog u args (c\<lparr>c_cached_value := None\<rparr>) index row_count filt)
        = ((Inr v, c\<lparr>c_cached_value := Some v\<rparr>), [column_call_args u ty args row_count filt])"
      by (simp add: prog)
  qed
  show "\<forall>h n nd a rank.
      h_nodes h n = Some nd \<and> node_obj nd = HCall c a \<and> wf_parents h rank \<longrightarrow>
      (\<exists>h' t. set_needs_recalc (Suc (rank n)) h n = Some (Inr (h', t)))"
  proof (intro allI impI, elim conjE)
    fix h n nd a rank
    assume nd: "h_nodes h n = Some nd" and wf: "wf_parents h rank"
    have "h_nodes h n \<noteq> None" using nd by simp
    moreover have "rank n < Suc (rank n)" by simp
    ultimately show "\<exists>h' t. set_needs_recalc (Suc (rank n)) h n = Some (Inr (h', t))"
      using wf by (intro set_needs_recalc_terminates(1))
  qed
qed

lemma vsum_col: "is_column_wise (f_meta (c_function (fresh_call VSUM)))"
  by (simp add: fresh_call_def VSUM_def)

lemma vsum_name: "f_name (c_function (fresh_call VSUM)) \<noteq> ''OFFSET''"
  by (simp add: fresh_call_def VSUM_def)

lemma vsum_call: "f_call (c_function (fresh_call VSUM)) = vsum_body"
  by (simp add: fresh_call_def VSUM_def)

theorem Call_column_wise_memo_witness:
  "exec vsum_body (Call_run_prog spec_utils [column_arg [IntV 1, IntV 2, IntV 3] INTEGER ORDINAL []]
      (fresh_call VSUM) [(0, 3, False), (2, 3, False), (1, 3, True)])
     = (([Inr (IntV 6), Inr (IntV 6), Inr (IntV 6)],
         (fresh_call VSUM)\<lparr>c_cached_value := Some (IntV 6)\<rparr>),
        [[Seq [Inr (IntV 1), Inr (IntV 2), Inr (IntV 3)]]]) \<and>
   exec vsum_body (Call_run_prog spec_utils [column_arg [IntV 1, IntV 2, IntV 3] INTEGER ORDINAL []]
      ((fresh_call VSUM)\<lparr>c_cached_value := Some (IntV 6)\<rparr>) [(5, 3, False)])
     = (([Inr (IntV 6)], (fresh_call VSUM)\<lparr>c_cached_value := Some (IntV 6)\<rparr>), []) \<and>
   exec vsum_body (Call_fvalue_prog spec_utils
      [column_arg [IntV 1] INTEGER ORDINAL [], column_arg [IntV 2] INTEGER ORDINAL []]
      (fresh_call VSUM) 0 1 False)
     = ((Inl TypeError, fresh_call VSUM), [[Seq [Inr (IntV 1)], Seq [Inr (IntV 2)]]]) \<and>
   exec vsum_body (Call_fvalue_prog spec_utils [column_arg [IntV 1] INTEGER ORDINAL []]
      ((fresh_call VSUM)\<lparr>c_arg_types := []\<rparr>) 0 1 False)
     = ((Inl IndexError, (fresh_call VSUM)\<lparr>c_arg_types := []\<rparr>), []) \<and>
   Call_needs_recalc (fresh_call VSUM) \<and>
   (\<exists>h' t. set_needs_recalc 3 vsum_heap 1 = Some (Inr (h', t)) \<and>
      notifies (parents_of vsum_heap) 1 t \<and> 3 \<in> set t \<and>
      h_nodes h' 1 = Some \<lparr>node_parents = [2], node_obj = HCall (fresh_call VSUM) (Some 4)\<rparr> \<and>
      h_nodes h' 3 = Some \<lparr>node_parents = [], node_obj = HCall (fresh_call VSUM) (Some 5)\<rparr>) \<and>
   exec vsum_body (Call_fvalue_prog spec_utils [column_arg [IntV 1, IntV 2, IntV 3] INTEGER ORDINAL []]
      (((fresh_call VSUM)\<lparr>c_cached_value := Some (IntV 6)\<rparr>)\<lparr>c_cached_value := None\<rparr>) 1 3 False)
     = ((Inr (IntV 6), (fresh_call VSUM)\<lparr>c_cached_value := Some (IntV 6)\<rparr>),
        [[Seq [Inr (IntV 1), Inr (IntV 2), Inr (IntV 3)]]])"
proof -
  let ?args = "[column_arg [IntV 1, IntV 2, IntV 3] INTEGER ORDINAL []]"
  let ?args2 = "[column_arg [IntV 1] INTEGER ORDINAL [], column_arg [IntV 2] INTEGER ORDINAL []]"
  let ?args1 = "[column_arg [IntV 1] INTEGER ORDINAL []]"
  let ?c0 = "fresh_call VSUM"
  let ?c1 = "(fresh_call VSUM)\<lparr>c_cached_value := Some (IntV 6)\<rparr>"
  let ?ce = "(fresh_call VSUM)\<lparr>c_arg_types := []\<rparr>"
  let ?A = "[Seq [Inr (IntV 1), Inr (IntV 2), Inr (IntV 3)]]"
  have col1: "is_column_wise (f_meta (c_function ?c1))" using vsum_col by simp
  have name1: "f_name (c_function ?c1) \<noteq> ''OFFSET''" using vsum_name by simp
  have cole: "is_column_wise (f_meta (c_function ?ce))" using vsum_col by simp
  have namee: "f_name (c_function ?ce) \<noteq> ''OFFSET''" using vsum_name by simp
  have call1: "f_call (c_function ?c1) = vsum_body" using vsum_call by simp
  have calle: "f_call (c_function ?ce) = vsum_body" using vsum_call by simp
  have c10: "?c1\<lparr>c_cached_value := None\<rparr> = ?c0" by (simp add: fresh_call_def)
  have c01: "?c0\<lparr>c_cached_value := Some (IntV 6)\<rparr> = ?c1" by simp
  have empty0: "c_cached_value ?c0 = None" by (simp add: fresh_call_def)
  have ty: "last_arg_type (c_arg_types ?c0) ?args = Inr (Some TInt)"
    by (simp add: last_arg_type_def arg_type_at_def fresh_call_def VSUM_def)
  have ty1: "last_arg_type (c_arg_types ?c1) ?args = Inr (Some TInt)"
    by (simp add: last_arg_type_def arg_type_at_def fresh_call_def VSUM_def)
  have ty2: "last_arg_type (c_arg_types ?c0) ?args2 = Inr (Some TInt)"
    by (simp add: last_arg_type_def arg_type_at_def fresh_call_def VSUM_def)
  have tye: "c_cached_value ?ce = None \<and> last_arg_type (c_arg_types ?ce) ?args1 = Inl IndexError"
    by (simp add: last_arg_type_def arg_type_at_def fresh_call_def)
  have A: "column_call_args spec_utils (Some TInt) ?args 3 False = ?A"
    by (simp add: column_call_args_def column_arg_def convert_elem_def spec_utils_def
        INT_MISSING_def)
  have A2: "column_call_args spec_utils (Some TInt) ?args2 1 False
      = [Seq [Inr (IntV 1)], Seq [Inr (IntV 2)]]"
    by (simp add: column_call_args_def column_arg_def convert_elem_def spec_utils_def
        INT_MISSING_def)
  have v: "vsum_body ?A = Inr (IntV 6)" by simp
  have e: "vsum_body [Seq [Inr (IntV 1)], Seq [Inr (IntV 2)]] = Inl TypeError" by simp
  have w1: "exec vsum_body (Call_run_prog spec_utils ?args ?c0
      [(0, 3, False), (2, 3, False), (1, 3, True)])
      = (([Inr (IntV 6), Inr (IntV 6), Inr (IntV 6)], ?c1), [?A])"
    using Call_column_wise_memo [OF vsum_col vsum_name, of spec_utils ?args,
        THEN conjunct2, THEN conjunct1, rule_format,
        of "Some TInt" 3 False "IntV 6" 0 "[(2, 3, False), (1, 3, True)]"]
      empty0 ty A v
    by (simp add: vsum_call numeral_3_eq_3)
  have w2: "exec vsum_body (Call_run_prog spec_utils ?args ?c1 [(5, 3, False)])
      = (([Inr (IntV 6)], ?c1), [])"
    using Call_column_wise_memo [OF col1 name1, of spec_utils ?args,
        THEN conjunct1, rule_format, of "IntV 6" "[(5, 3, False)]"]
    by (simp add: vsum_call)
  have w3: "exec vsum_body (Call_fvalue_prog spec_utils ?args2 ?c0 0 1 False)
      = ((Inl TypeError, ?c0), [[Seq [Inr (IntV 1)], Seq [Inr (IntV 2)]]])"
    using Call_column_wise_memo [OF vsum_col vsum_name, of spec_utils ?args2,
        THEN conjunct2, THEN conjunct2, THEN conjunct1, rule_format,
        of "Some TInt" 1 False TypeError 0]
      empty0 ty2 A2 e
    by (simp add: vsum_call)
  have w3b: "exec vsum_body (Call_fvalue_prog spec_utils ?args1 ?ce 0 1 False)
      = ((Inl IndexError, ?ce), [])"
    using Call_column_wise_memo [OF cole namee, of spec_utils ?args1,
        THEN conjunct2, THEN conjunct2, THEN conjunct2, THEN conjunct1, rule_format,
        of IndexError 0 1 False]
      tye
    by (simp add: vsum_call)
  have w4: "Call_needs_recalc ?c0"
    using Call_column_wise_memo [OF vsum_col vsum_name, of spec_utils ?args,
        THEN conjunct2, THEN conjunct2, THEN conjunct2, THEN conjunct2, THEN conjunct1]
      empty0
    by simp
  let ?nd = "\<lparr>node_parents = [2], node_obj = HCall ?c1 (Some 4)\<rparr>"
  have nd: "h_nodes vsum_heap 1 = Some ?nd" by (simp add: vsum_heap_def)
  have wf: "wf_parents vsum_heap (\<lambda>n. 3 - n)"
    unfolding wf_parents_def vsum_heap_def by (auto split: if_splits)
  from Call_column_wise_memo [OF col1 name1, of spec_utils ?args,
      THEN conjunct2, THEN conjunct2, THEN conjunct2, THEN conjunct2, THEN conjunct2,
      THEN conjunct2, THEN conjunct2, rule_format, of vsum_heap 1 ?nd "Some 4" "\<lambda>n. 3 - n"]
    nd wf
  obtain h' t where s: "set_needs_recalc 3 vsum_heap 1 = Some (Inr (h', t))"
    by (auto simp add: numeral_3_eq_3)
  from Call_column_wise_memo [OF col1 name1, of spec_utils ?args,
      THEN conjunct2, THEN conjunct2, THEN conjunct2, THEN conjunct2, THEN conjunct2,
      THEN conjunct1, rule_format, of vsum_heap 1 ?nd "Some 4" 3 h' t]
    nd s
  have nt: "notifies (parents_of vsum_heap) 1 t"
    and anc: "set t = {m. (1, m) \<in> (parent_rel vsum_heap)\<^sup>*}"
    and h': "h' = clear_set vsum_heap (set t)"
    and n1: "h_nodes h' 1 = Some \<lparr>node_parents = [2], node_obj = HCall ?c0 (Some 4)\<rparr>"
    unfolding c10 by auto
  have "(1, 2) \<in> parent_rel vsum_heap" and "(2, 3) \<in> parent_rel vsum_heap"
    by (simp_all add: parent_rel_def vsum_heap_def)
  then have "(1, 3) \<in> (parent_rel vsum_heap)\<^sup>*" by (meson r_into_rtrancl rtrancl_trans)
  with anc have t3: "3 \<in> set t" by simp
  have c70: "((fresh_call VSUM)\<lparr>c_cached_value := Some (IntV 7)\<rparr>)\<lparr>c_cached_value := None\<rparr> = ?c0"
    by (simp add: fresh_call_def)
  have n3: "h_nodes h' 3 = Some \<lparr>node_parents = [], node_obj = HCall ?c0 (Some 5)\<rparr>"
    unfolding h' using t3 by (simp add: clear_set_def vsum_heap_def clear_memo_def c70)
  from s nt t3 n1 n3
  have w5: "\<exists>h' t. set_needs_recalc 3 vsum_heap 1 = Some (Inr (h', t)) \<and>
      notifies (parents_of vsum_heap) 1 t \<and> 3 \<in> set t \<and>
      h_nodes h' 1 = Some \<lparr>node_parents = [2], node_obj = HCall ?c0 (Some 4)\<rparr> \<and>
      h_nodes h' 3 = Some \<lparr>node_parents = [], node_obj = HCall ?c0 (Some 5)\<rparr>"
    by blast
  have w6: "exec vsum_body (Call_fvalue_prog spec_utils ?args (?c1\<lparr>c_cached_value := None\<rparr>) 1 3 False)
      = ((Inr (IntV 6), ?c1), [?A])"
    using Call_column_wise_memo [OF col1 name1, of spec_utils ?args,
        THEN conjunct2, THEN conjunct2, THEN conjunct2, THEN conjunct2, THEN conjunct2,
        THEN conjunct2, THEN conjunct1, rule_format, of "Some TInt" 3 False "IntV 6" 1]
      ty1 A v
    by (simp add: vsum_call)
  from w1 w2 w3 w3b w4 w5 w6 show ?thesis by blast
qed

section \<open>Construction and release of a call with sub-functions\<close>

lemma functions_module_lookup:
  "functions_module ''Z'' = Some Z_fn"
  "functions_module ''VMEAN'' = Some (column_fn ''VMEAN'')"
  "functions_module ''VSTDEV'' = Some (column_fn ''VSTDEV'')"
  by (simp_all add: functions_module_def)

lemma Z_fn_params: "is_row_wise (f_meta Z_fn)" "f_params Z_fn \<noteq> []"
  "tl (f_params Z_fn) = [\<lparr>p_annotation = Some TFloat, p_default = NoDefault\<rparr>,
                 \<lparr>p_annotation = None, p_default = FnDefault ''VMEAN''\<rparr>,
                 \<lparr>p_annotation = None, p_default = FnDefault ''VSTDEV''\<rparr>]"
  by (simp_all add: Z_fn_def)

lemma column_fn_params: "\<not> is_row_wise (f_meta (column_fn n))"
  "f_params (column_fn n) = [\<lparr>p_annotation = Some TFloat, p_default = NoDefault\<rparr>]"
  by (simp_all add: column_fn_def)

lemma Call_init_z_sum:
  "Call_init 4 functions_module z_sum_heap ''Z'' 3 = Some (Inr
     (\<lparr>h_nodes = [0 \<mapsto> \<lparr>node_parents = [2], node_obj = HLeaf\<rparr>,
                  1 \<mapsto> \<lparr>node_parents = [2], node_obj = HLeaf\<rparr>,
                  2 \<mapsto> \<lparr>node_parents = [6, 8], node_obj = HBinOp 0 1\<rparr>,
                  4 \<mapsto> \<lparr>node_parents = [], node_obj = HCall (fresh_call Z_fn) (Some 3)\<rparr>,
                  6 \<mapsto> \<lparr>node_parents = [], node_obj = HCall (fresh_call (column_fn ''VMEAN'')) (Some 5)\<rparr>,
                  8 \<mapsto> \<lparr>node_parents = [], node_obj = HCall (fresh_call (column_fn ''VSTDEV'')) (Some 5)\<rparr>],
      h_lists = [3 \<mapsto> [2, 6, 8], 5 \<mapsto> [2], 7 \<mapsto> [2], 9 \<mapsto> [2]],
      h_next = 10\<rparr>, 4))"
  apply (simp add: functions_module_lookup Z_fn_params column_fn_params
      eval_nat_numeral z_sum_heap_def Let_def sub_arg_len_def add_node_parent_def)
  apply (auto simp add: fun_eq_iff intro!: heap.equality)
  done


lemma Call_init_z_column:
  "Call_init 4 functions_module z_column_heap ''Z'' 1 = Some (Inr
     (\<lparr>h_nodes = [0 \<mapsto> \<lparr>node_parents = [4, 6], node_obj = HLeaf\<rparr>,
                  2 \<mapsto> \<lparr>node_parents = [], node_obj = HCall (fresh_call Z_fn) (Some 1)\<rparr>,
                  4 \<mapsto> \<lparr>node_parents = [], node_obj = HCall (fresh_call (column_fn ''VMEAN'')) (Some 3)\<rparr>,
                  6 \<mapsto> \<lparr>node_parents = [], node_obj = HCall (fresh_call (column_fn ''VSTDEV'')) (Some 3)\<rparr>],
      h_lists = [1 \<mapsto> [0, 4, 6], 3 \<mapsto> [0], 5 \<mapsto> [0], 7 \<mapsto> [0]],
      h_next = 8\<rparr>, 2))"
  apply (simp add: functions_module_lookup Z_fn_params column_fn_params
      eval_nat_numeral z_column_heap_def Let_def sub_arg_len_def add_node_parent_def)
  apply (auto simp add: fun_eq_iff intro!: heap.equality)
  done

text \<open>
  Claim C6 at \<^verbatim>\<open>Z(a + b)\<close> and at \<^verbatim>\<open>Z(a)\<close>. Construction synthesizes the calls of
  the two default functions over the shared argument and appends them to the argument
  list (\<open>Call_init_z_sum\<close>, \<open>Call_init_z_column\<close>). Releasing the constructed and
  wired call of \<^verbatim>\<open>Z(a + b)\<close> raises \<^verbatim>\<open>ValueError\<close>: the sum is released once as an
  argument of the outer call and once more as the argument of the first synthesized call,
  and its second release removes it from the parent list of a column that no longer holds
  it. For \<^verbatim>\<open>Z(a)\<close>, whose shared argument is a column, the release ends and leaves every
  parent list empty.
\<close>

theorem Call_release_shared_argument:
  "compile_and_release 4 functions_module z_sum_heap ''Z'' 3 = Some (Inl ValueError) \<and>
   compile_and_release 4 functions_module z_column_heap ''Z'' 1 = Some (Inr
     \<lparr>h_nodes = [0 \<mapsto> \<lparr>node_parents = [], node_obj = HLeaf\<rparr>,
                  2 \<mapsto> \<lparr>node_parents = [], node_obj = HCall (fresh_call Z_fn) (Some 1)\<rparr>,
                  4 \<mapsto> \<lparr>node_parents = [], node_obj = HCall (fresh_call (column_fn ''VMEAN'')) (Some 3)\<rparr>,
                  6 \<mapsto> \<lparr>node_parents = [], node_obj = HCall (fresh_call (column_fn ''VSTDEV'')) (Some 3)\<rparr>],
      h_lists = [1 \<mapsto> [0, 4, 6], 3 \<mapsto> [0], 5 \<mapsto> [0], 7 \<mapsto> [0]],
      h_next = 8\<rparr>)"
proof
  show "compile_and_release 4 functions_module z_sum_heap ''Z'' 3 = Some (Inl ValueError)"
    unfolding compile_and_release_def Call_init_z_sum
    by (simp add: wire_args_def add_node_parent_def remove_node_parent_def eval_nat_numeral)
next
  show "compile_and_release 4 functions_module z_column_heap ''Z'' 1 = Some (Inr
     \<lparr>h_nodes = [0 \<mapsto> \<lparr>node_parents = [], node_obj = HLeaf\<rparr>,
                  2 \<mapsto> \<lparr>node_parents = [], node_obj = HCall (fresh_call Z_fn) (Some 1)\<rparr>,
                  4 \<mapsto> \<lparr>node_parents = [], node_obj = HCall (fresh_call (column_fn ''VMEAN'')) (Some 3)\<rparr>,
                  6 \<mapsto> \<lparr>node_parents = [], node_obj = HCall (fresh_call (column_fn ''VSTDEV'')) (Some 3)\<rparr>],
      h_lists = [1 \<mapsto> [0, 4, 6], 3 \<mapsto> [0], 5 \<mapsto> [0], 7 \<mapsto> [0]],
      h_next = 8\<rparr>)"
    unfolding compile_and_release_def Call_init_z_column
    apply (simp add: wire_args_def add_node_parent_def remove_node_parent_def eval_nat_numeral)
    apply (auto simp add: fun_eq_iff intro!: heap.equality)
    done
qed

section \<open>Properties of level discovery\<close>

lemma od_set_keys:
  "map fst (od_set lu k n) = (if k \<in> fst ` set lu then map fst lu else map fst lu @ [k])"
proof (induction lu)
  case Nil
  then show ?case by simp
next
  case (Cons kv lu)
  obtain k' n' where kv: "kv = (k', n')" by (cases kv)
  show ?case
  proof (cases "k' = k")
    case True
    then show ?thesis by (simp add: kv)
  next
    case False
    then show ?thesis using Cons by (simp add: kv)
  qed
qed

lemma od_set_zero:
  "list_all (\<lambda>kv. snd kv = 0) lu \<Longrightarrow> list_all (\<lambda>kv. snd kv = 0) (od_set lu k 0)"
proof (induction lu)
  case Nil
  then show ?case by simp
next
  case (Cons kv lu)
  obtain k' n' where kv: "kv = (k', n')" by (cases kv)
  from Cons show ?case by (simp add: kv)
qed

lemma od_set_distinct: "distinct (map fst lu) \<Longrightarrow> distinct (map fst (od_set lu k n))"
  by (simp add: od_set_keys)

lemma foldl_od_set_keys:
  "map fst (foldl (\<lambda>lu level. od_set lu (snd level) 0) lu levels)
     = fold (\<lambda>x acc. if x \<in> set acc then acc else acc @ [x]) (map snd levels) (map fst lu)"
  by (induction levels arbitrary: lu) (simp_all add: od_set_keys)

lemma foldl_od_set_zero:
  "list_all (\<lambda>kv. snd kv = 0) lu \<Longrightarrow>
   list_all (\<lambda>kv. snd kv = 0) (foldl (\<lambda>lu level. od_set lu (snd level) 0) lu levels)"
  by (induction levels arbitrary: lu) (simp_all add: od_set_zero)

lemma foldl_od_set_distinct:
  "distinct (map fst lu) \<Longrightarrow>
   distinct (map fst (foldl (\<lambda>lu level. od_set lu (snd level) 0) lu levels))"
  by (induction levels arbitrary: lu) (simp_all add: od_set_distinct)

lemma collect_levels_keys:
  "map fst (collect_levels args n idx lu)
     = fold (\<lambda>x acc. if x \<in> set acc then acc else acc @ [x])
         (concat (map (\<lambda>i. map snd (arg_get_levels (args ! i) n))
            (filter (\<lambda>i. i < length args \<and> arg_has_levels (args ! i)) idx)))
         (map fst lu)"
  by (induction args n idx lu rule: collect_levels.induct) (simp_all add: foldl_od_set_keys)

lemma collect_levels_candidates:
  "map fst (collect_levels args n idx []) = candidate_labels args n idx"
  by (simp add: collect_levels_keys candidate_labels_def keep_first_def)

lemma collect_levels_zero:
  "list_all (\<lambda>kv. snd kv = 0) lu \<Longrightarrow>
   list_all (\<lambda>kv. snd kv = 0) (collect_levels args n idx lu)"
  by (induction args n idx lu rule: collect_levels.induct) (simp_all add: foldl_od_set_zero)

lemma collect_levels_distinct:
  "distinct (map fst lu) \<Longrightarrow> distinct (map fst (collect_levels args n idx lu))"
  by (induction args n idx lu rule: collect_levels.induct) (simp_all add: foldl_od_set_distinct)

lemma od_incr_absent: "s \<notin> fst ` set lu \<Longrightarrow> od_incr lu s = lu"
  by (induction lu) auto

lemma od_incr_map:
  "distinct (map fst lu) \<Longrightarrow>
   od_incr lu s = map (\<lambda>kv. (fst kv, if fst kv = s then Suc (snd kv) else snd kv)) lu"
proof (induction lu)
  case Nil
  then show ?case by simp
next
  case (Cons kv lu)
  show ?case
  proof (cases "fst kv = s")
    case True
    with Cons.prems have "s \<notin> fst ` set lu" by auto
    then have "map (\<lambda>kv. (fst kv, if fst kv = s then Suc (snd kv) else snd kv)) lu = lu"
      by (intro map_idI) (auto simp add: image_iff)
    with True show ?thesis by (cases kv) simp
  next
    case False
    with Cons show ?thesis by (cases kv) simp
  qed
qed

lemma count_use_map:
  "distinct (map fst lu) \<Longrightarrow>
   count_use u vs lu =
     map (\<lambda>kv. (fst kv, snd kv +
        length (filter (\<lambda>v. \<not> is_missing u v \<and> convert u v (Some TStr) = StrV (fst kv)) vs))) lu"
proof (induction vs arbitrary: lu)
  case Nil
  then show ?case by simp
next
  case (Cons v vs)
  show ?case
  proof (cases "is_missing u v")
    case True
    then show ?thesis using Cons by simp
  next
    case False
    show ?thesis
    proof (cases "convert u v (Some TStr)")
      case (StrV s)
      have d: "distinct (map fst (od_incr lu s))"
        using Cons.prems by (simp add: od_incr_map comp_def)
      show ?thesis
        using False StrV Cons.IH [OF d] Cons.prems
        by (simp add: od_incr_map comp_def)
    qed (use False Cons in simp_all)
  qed
qed

lemma used_keys:
  assumes "distinct (map fst lu)" and "list_all (\<lambda>kv. snd kv = 0) lu"
  shows "map fst (filter (\<lambda>kv. snd kv > 0) (count_use u vs lu))
     = filter (label_used u vs) (map fst lu)"
proof -
  have pos: "(0 < length (filter P vs)) = (\<exists>v\<in>set vs. P v)" for P :: "val \<Rightarrow> bool"
    by (simp add: filter_empty_conv)
  show ?thesis
    unfolding count_use_map [OF assms(1)] using assms(2)
    by (induction lu) (auto simp add: label_used_def filter_empty_conv)
qed

lemma enumerate_levels_fst: "map fst (enumerate_levels ls) = map int [0..<length ls]"
  by (simp add: enumerate_levels_def comp_def)

lemma enumerate_levels_snd: "map snd (enumerate_levels ls) = ls"
  by (simp add: enumerate_levels_def comp_def map_nth)

lemma enumerate_levels_length: "length (enumerate_levels ls) = length ls"
  by (simp add: enumerate_levels_def)

lemma Call_fvalue_step:
  assumes "Call_fvalue u args c i n False = (r, c', k)"
  shows "(\<forall>j. fst (snd (Call_fvalue u args c' j n False)) = c') \<and>
         (\<forall>j. fst (Call_fvalue u args c' j n False) = fst (Call_fvalue u args c j n False)) \<and>
         c_d_type c' = c_d_type c \<and> c_m_type c' = c_m_type c \<and> c_function c' = c_function c"
proof (cases "f_name (c_function c) = ''OFFSET''")
  case True
  with assms have "c' = c" by (simp add: Call_fvalue_unfold)
  with True show ?thesis by (simp add: Call_fvalue_unfold)
next
  case no: False
  show ?thesis
  proof (cases "is_column_wise (f_meta (c_function c))")
    case False
    with no assms have "c' = c" by (auto simp add: Call_fvalue_unfold split: sum.splits)
    with no False show ?thesis
      by (auto simp add: Call_fvalue_unfold split: sum.splits)
  next
    case col: True
    show ?thesis
    proof (cases "c_cached_value c")
      case (Some v)
      with no col assms have "c' = c" by (simp add: Call_fvalue_unfold)
      then show ?thesis using no col Some by (simp add: Call_fvalue_unfold)
    next
      case None
      show ?thesis
      proof (cases "last_arg_type (c_arg_types c) args")
        case (Inl e)
        with no col None assms have "c' = c" by (simp add: Call_fvalue_unfold)
        then show ?thesis using no col None Inl by (simp add: Call_fvalue_unfold)
      next
        case (Inr ty)
        show ?thesis
        proof (cases "f_call (c_function c) (column_call_args u ty args n False)")
          case (Inl e)
          with no col None Inr assms have "c' = c" by (simp add: Call_fvalue_unfold)
          then show ?thesis using no col None Inr Inl by (simp add: Call_fvalue_unfold)
        next
          case r: (Inr v)
          with no col None Inr assms have c': "c' = c\<lparr>c_cached_value := Some v\<rparr>"
            by (simp add: Call_fvalue_unfold)
          show ?thesis
            using no col None Inr r by (simp add: c' Call_fvalue_unfold)
        qed
      qed
    qed
  qed
qed

lemma Call_fvalues_rows_stable:
  "\<forall>j. fst (snd (Call_fvalue u args c j n False)) = c \<Longrightarrow>
   snd (Call_fvalues_rows u args c rows n) = c"
proof (induction rows)
  case Nil
  then show ?case by simp
next
  case (Cons i rows)
  obtain r c1 k where s: "Call_fvalue u args c i n False = (r, c1, k)"
    by (cases "Call_fvalue u args c i n False") auto
  with Cons.prems have c1: "c1 = c" by (metis fst_conv snd_conv)
  obtain r2 c2 where t: "Call_fvalues_rows u args c rows n = (r2, c2)"
    by (cases "Call_fvalues_rows u args c rows n") auto
  with Cons have c2: "c2 = c" by simp
  show ?case
    by (cases r; cases r2) (simp_all add: s c1 t c2)
qed

lemma Call_fvalues_rows_idem:
  "Call_fvalues_rows u args c rows n = (r, c') \<Longrightarrow>
   Call_fvalues_rows u args c' rows n = (r, c') \<and>
   c_d_type c' = c_d_type c \<and> c_m_type c' = c_m_type c \<and> c_function c' = c_function c"
proof (induction rows arbitrary: c r c')
  case Nil
  then show ?case by simp
next
  case (Cons i rows)
  obtain r1 c1 k where s: "Call_fvalue u args c i n False = (r1, c1, k)"
    by (cases "Call_fvalue u args c i n False") auto
  note st = Call_fvalue_step [OF s]
  from st have stable: "\<forall>j. fst (snd (Call_fvalue u args c1 j n False)) = c1" by blast
  from st s have again: "fst (Call_fvalue u args c1 i n False) = r1" by simp
  obtain k' where s1: "Call_fvalue u args c1 i n False = (r1, c1, k')"
    using again stable by (metis prod.collapse)
  show ?case
  proof (cases r1)
    case (Inl e)
    with Cons.prems s have "r = Inl e" and "c' = c1" by simp_all
    then show ?thesis using s1 Inl st by simp
  next
    case (Inr v)
    obtain r2 c2 where t: "Call_fvalues_rows u args c1 rows n = (r2, c2)"
      by (cases "Call_fvalues_rows u args c1 rows n") auto
    from Call_fvalues_rows_stable [OF stable, of rows] t have c2: "c2 = c1" by simp
    from Cons.prems s Inr t c2 have "c' = c1"
      by (cases r2) auto
    moreover from Cons.prems s Inr t c2 have "r = (case r2 of Inl e \<Rightarrow> Inl e | Inr vs \<Rightarrow> Inr (v # vs))"
      by (cases r2) auto
    ultimately show ?thesis using s1 Inr t c2 st by (cases r2) simp_all
  qed
qed

lemma Call_types_settled:
  assumes "(c_d_type c = None) = (c_m_type c = None)"
    and "cT = (if c_d_type c = None then Call_determine_d_m_types args c else c)"
  shows "Call_data_type args c = (c_d_type cT, cT)"
    and "Call_measure_type args c = (c_m_type cT, cT)"
    and "Call_measure_type args cT = (c_m_type cT, cT)"
    and "c_d_type cT \<noteq> None" and "c_function cT = c_function c"
  using assms
  by (auto simp add: Call_data_type_def Call_measure_type_def Call_determine_d_m_types_def
      Let_def split: prod.splits)

lemma Call_types_memo:
  "c_d_type d \<noteq> None \<Longrightarrow> c_m_type d \<noteq> None \<Longrightarrow>
   Call_data_type args d = (c_d_type d, d) \<and> Call_measure_type args d = (c_m_type d, d)"
  by (auto simp add: Call_data_type_def Call_measure_type_def)

lemma if_levels:
  "Call_get_levels spec_utils if_args (fresh_call IF_fn) 2
     = (Inr [(0, ''x''), (1, ''y'')],
        (fresh_call IF_fn)\<lparr>c_d_type := Some TEXT, c_m_type := Some NOMINAL\<rparr>)"
  by (simp add: Call_get_levels_def Call_data_type_def Call_measure_type_def
      Call_determine_d_m_types_def determine_d_m_types_def Call_fvalues_def
      Call_fvalue_unfold arg_type_at_def used_levels_def enumerate_levels_def
      fresh_call_def IF_fn_def if_args_def column_arg_def spec_utils_def Let_def
      upt_rec numeral_2_eq_2)

lemma if_column:
  "Call_fvalues spec_utils if_args (fresh_call IF_fn) 2
     = (Inr [StrV ''y'', StrV ''x''], fresh_call IF_fn)"
  by (simp add: Call_fvalues_def Call_fvalue_unfold arg_type_at_def
      fresh_call_def IF_fn_def if_args_def column_arg_def spec_utils_def
      upt_rec numeral_2_eq_2)

lemma if_candidates: "candidate_labels if_args 2 [1, 2] = [''x'', ''y'']"
  by (simp add: candidate_labels_def keep_first_def if_args_def column_arg_def)

text \<open>
  Claim C7, as stated, fails in its last part: for \<^verbatim>\<open>IF(cond, a, b)\<close> whose column
  reads \<^verbatim>\<open>y\<close> and then \<^verbatim>\<open>x\<close>, discovery gives \<^verbatim>\<open>x\<close> the code 0 and \<^verbatim>\<open>y\<close>
  the code 1, the order in which the arguments contributed the labels; by first use
  \<^verbatim>\<open>y\<close> would come first.
\<close>

theorem Call_get_levels_first_use_counterexample:
  "fst (Call_get_levels spec_utils if_args (fresh_call IF_fn) 2) = Inr [(0, ''x''), (1, ''y'')] \<and>
   fst (Call_fvalues spec_utils if_args (fresh_call IF_fn) 2) = Inr [StrV ''y'', StrV ''x''] \<and>
   enumerate_levels (first_use_labels spec_utils [StrV ''y'', StrV ''x'']
       (candidate_labels if_args 2 [1, 2])) = [(0, ''y''), (1, ''x'')]"
proof -
  have "enumerate_levels (first_use_labels spec_utils [StrV ''y'', StrV ''x''] [''x'', ''y''])
      = [(0, ''y''), (1, ''x'')]"
    by (simp add: first_use_labels_def labels_of_def keep_first_def enumerate_levels_def
        spec_utils_def upt_rec numeral_2_eq_2)
  then show ?thesis
    by (simp only: if_levels if_column if_candidates fst_conv simp_thms)
qed

text \<open>
  Claim C7, amended. For a call with level-source positions and arguments, a text data
  type and a measure type other than identifier, whose two type memos are both empty or
  both filled, and whose discovery returns a list of levels:
  \<^item> discovering the levels again on the object the first discovery has left gives the
    same list and leaves the object as it is;
  \<^item> the codes are \<open>0, \<dots>, n - 1\<close>;
  \<^item> the labels are the candidate labels that a non-missing value of the node's column
    converts to, in the order of the candidates (the order in which the level-source
    arguments contributed them, each label once), not in the order of their first use in
    the column.
\<close>

theorem Call_get_levels_order:
  assumes idx: "arg_level_indices (f_meta (c_function c)) \<noteq> []" and args: "args \<noteq> []"
    and inv: "(c_d_type c = None) = (c_m_type c = None)"
    and tx: "fst (Call_data_type args c) = Some TEXT"
    and noid: "fst (Call_measure_type args c) \<noteq> Some ID"
    and run: "Call_get_levels u args c row_count = (Inr levels, c')"
  shows "Call_get_levels u args c' row_count = (Inr levels, c') \<and>
         map fst levels = map int [0..<length levels] \<and>
         (\<exists>values. fst (Call_fvalues u args c' row_count) = Inr values \<and>
            map snd levels = filter (label_used u values)
              (candidate_labels args row_count (arg_level_indices (f_meta (c_function c)))))"
proof -
  define cT where "cT = (if c_d_type c = None then Call_determine_d_m_types args c else c)"
  note ts = Call_types_settled [OF inv cT_def]
  let ?lu = "collect_levels args row_count (arg_level_indices (f_meta (c_function c))) []"
  have dT: "c_d_type cT = Some TEXT" using tx ts(1) by simp
  have mT: "c_m_type cT \<noteq> Some ID" using noid ts(2) by simp
  have mT': "c_m_type cT \<noteq> None"
    using inv dT by (auto simp add: cT_def Call_determine_d_m_types_def split: prod.splits if_splits)
  obtain r3 c3 where col: "Call_fvalues u args cT row_count = (r3, c3)"
    by (cases "Call_fvalues u args cT row_count") auto
  have unfold: "Call_get_levels u args c row_count =
      (case r3 of Inl e \<Rightarrow> (Inl e, c3)
       | Inr values \<Rightarrow> (Inr (used_levels (count_use u values ?lu)), c3))"
    using idx args dT mT
    by (cases r3) (simp_all add: Call_get_levels_def Let_def ts(1) ts(3) col)
  from run unfold obtain vs where r3: "r3 = Inr vs"
    and levels: "levels = used_levels (count_use u vs ?lu)" and c': "c' = c3"
    by (cases r3) auto
  from col have "Call_fvalues_rows u args cT [0..<row_count] row_count = (Inr vs, c')"
    by (simp add: Call_fvalues_def r3 c')
  from Call_fvalues_rows_idem [OF this]
  have again: "Call_fvalues u args c' row_count = (Inr vs, c')"
    and d': "c_d_type c' = Some TEXT" and m': "c_m_type c' = c_m_type cT"
    and f': "c_function c' = c_function c"
    using dT ts(5) by (simp_all add: Call_fvalues_def)
  have tm: "Call_data_type args c' = (Some TEXT, c')" "Call_measure_type args c' = (c_m_type cT, c')"
    using Call_types_memo [of c' args] d' m' mT' by simp_all
  have idem: "Call_get_levels u args c' row_count = (Inr levels, c')"
    using idx args mT
    by (simp add: Call_get_levels_def Let_def f' tm again levels)
  have codes: "map fst levels = map int [0..<length levels]"
    by (simp add: levels used_levels_def enumerate_levels_fst enumerate_levels_length)
  have dist: "distinct (map fst ?lu)" by (rule collect_levels_distinct) simp
  have zero: "list_all (\<lambda>kv. snd kv = 0) ?lu" by (rule collect_levels_zero) simp
  have labels: "map snd levels = filter (label_used u vs)
      (candidate_labels args row_count (arg_level_indices (f_meta (c_function c))))"
    by (simp add: levels used_levels_def enumerate_levels_snd used_keys [OF dist zero]
        collect_levels_candidates)
  from idem codes labels again show ?thesis by auto
qed

theorem Call_get_levels_order_witness:
  "Call_get_levels spec_utils if_args
      ((fresh_call IF_fn)\<lparr>c_d_type := Some TEXT, c_m_type := Some NOMINAL\<rparr>) 2
     = (Inr [(0, ''x''), (1, ''y'')],
        (fresh_call IF_fn)\<lparr>c_d_type := Some TEXT, c_m_type := Some NOMINAL\<rparr>) \<and>
   map fst [(0 :: int, ''x''), (1, ''y'')] = map int [0..<2] \<and>
   (\<exists>values.
      fst (Call_fvalues spec_utils if_args
            ((fresh_call IF_fn)\<lparr>c_d_type := Some TEXT, c_m_type := Some NOMINAL\<rparr>) 2) = Inr values \<and>
      [''x'', ''y''] = filter (label_used spec_utils values) (candidate_labels if_args 2 [1, 2]))"
proof -
  have h1: "arg_level_indices (f_meta (c_function (fresh_call IF_fn))) \<noteq> []"
    by (simp add: fresh_call_def IF_fn_def)
  have h2: "if_args \<noteq> []" by (simp add: if_args_def)
  have h3: "(c_d_type (fresh_call IF_fn) = None) = (c_m_type (fresh_call IF_fn) = None)"
    by (simp add: fresh_call_def)
  have h4: "fst (Call_data_type if_args (fresh_call IF_fn)) = Some TEXT"
    by (simp add: Call_data_type_def Call_determine_d_m_types_def determine_d_m_types_def
        fresh_call_def IF_fn_def if_args_def column_arg_def Let_def)
  have h5: "fst (Call_measure_type if_args (fresh_call IF_fn)) \<noteq> Some ID"
    by (simp add: Call_measure_type_def Call_determine_d_m_types_def determine_d_m_types_def
        fresh_call_def IF_fn_def if_args_def column_arg_def Let_def)
  have idx: "arg_level_indices (f_meta (c_function (fresh_call IF_fn))) = [1, 2]"
    by (simp add: fresh_call_def IF_fn_def)
  show ?thesis
    using Call_get_levels_order [OF h1 h2 h3 h4 h5 if_levels]
    unfolding idx by (simp add: numeral_2_eq_2)
qed


end
